theory Spec2Isabelle
  imports Main "HOL-Library.Multiset"
begin

chapter \<open>zap-pm: registry client and download manager\<close>

text \<open>
  A shallow embedding of the Go packages \<^verbatim>\<open>internal/registry\<close> (metadata fetch with
  retries, version resolution) and \<^verbatim>\<open>internal/downloader\<close> (cache check, archive
  transfer, dependency downloads) of zap-pm, with \<^verbatim>\<open>internal/errors\<close>. Calls that
  touch the network or the file system take the world and return the world they leave.
  Logging is left out.
\<close>

section \<open>Errors\<close>

text \<open>
  Go errors are values. Three shapes occur in the repository:
  errors raised by libraries (transport, JSON, file system, semver), kept opaque with
  their message; \<^verbatim>\<open>*errors.ZapError{Type, Message, Err}\<close> of
  \<^verbatim>\<open>internal/errors/errors.go\<close>; and \<^verbatim>\<open>fmt.Errorf\<close> values. For the
  last, the first component is the message with its \<^verbatim>\<open>%s\<close> and \<^verbatim>\<open>%d\<close>
  operands filled in and the \<^verbatim>\<open>%w\<close> / \<^verbatim>\<open>%v\<close> verb left in place; the
  second component lists the errors that verb stands for.
\<close>

datatype error =
    LibError string
  | ZapError string string "error option"
  | Errorf string "error list"

text \<open>\<^verbatim>\<open>errors.Wrap\<close>: \<^verbatim>\<open>nil\<close> stays \<^verbatim>\<open>nil\<close>, a ZapError keeps its type
  and cause and gets the message prefixed, anything else becomes the cause of an
  \<^verbatim>\<open>unknown\<close> ZapError.\<close>

fun Wrap :: "error option \<Rightarrow> string \<Rightarrow> error option" where
  "Wrap None message = None"
| "Wrap (Some (ZapError ty msg cause)) message =
     Some (ZapError ty (message @ '': '' @ msg) cause)"
| "Wrap (Some err) message = Some (ZapError ''unknown'' message (Some err))"

section \<open>Strings\<close>

text \<open>Go strings are byte sequences; \<^typ>\<open>char\<close> is a byte.\<close>

definition HasPrefix :: "string \<Rightarrow> string \<Rightarrow> bool" where
  "HasPrefix s p = (take (length p) s = p)"

text \<open>
  \<^verbatim>\<open>strings.TrimSpace\<close> removes leading and trailing white space as Unicode
  defines it. On bytes these are the six ASCII space characters and the UTF-8 encodings
  of U+0085, U+00A0, U+1680, U+2000 to U+200A, U+2028, U+2029, U+202F, U+205F, U+3000.
\<close>

definition space_encodings :: "string list" where
  "space_encodings =
     [[CHR 0x09], [CHR 0x0A], [CHR 0x0B], [CHR 0x0C], [CHR 0x0D], [CHR 0x20],
      [CHR 0xC2, CHR 0x85], [CHR 0xC2, CHR 0xA0], [CHR 0xE1, CHR 0x9A, CHR 0x80],
      [CHR 0xE2, CHR 0x80, CHR 0x80], [CHR 0xE2, CHR 0x80, CHR 0x81],
      [CHR 0xE2, CHR 0x80, CHR 0x82], [CHR 0xE2, CHR 0x80, CHR 0x83],
      [CHR 0xE2, CHR 0x80, CHR 0x84], [CHR 0xE2, CHR 0x80, CHR 0x85],
      [CHR 0xE2, CHR 0x80, CHR 0x86], [CHR 0xE2, CHR 0x80, CHR 0x87],
      [CHR 0xE2, CHR 0x80, CHR 0x88], [CHR 0xE2, CHR 0x80, CHR 0x89],
      [CHR 0xE2, CHR 0x80, CHR 0x8A], [CHR 0xE2, CHR 0x80, CHR 0xA8],
      [CHR 0xE2, CHR 0x80, CHR 0xA9], [CHR 0xE2, CHR 0x80, CHR 0xAF],
      [CHR 0xE2, CHR 0x81, CHR 0x9F], [CHR 0xE3, CHR 0x80, CHR 0x80]]"

function strip_leading :: "string list \<Rightarrow> string \<Rightarrow> string" where
  "strip_leading encs s =
     (case find (\<lambda>e. e \<noteq> [] \<and> take (length e) s = e) encs of
        None \<Rightarrow> s
      | Some e \<Rightarrow> strip_leading encs (drop (length e) s))"
  by pat_completeness auto
termination
proof (relation "measure (\<lambda>(encs, s). length s)")
  show "wf (measure (\<lambda>(encs, s). length s))" by simp
next
  fix encs :: "string list" and s e :: string
  assume "find (\<lambda>e. e \<noteq> [] \<and> take (length e) s = e) encs = Some e"
  then have ne: "e \<noteq> []" and tk: "take (length e) s = e"
    by (auto simp: find_Some_iff)
  from tk have "length (take (length e) s) = length e" by simp
  then have "length e \<le> length s" by simp
  moreover from ne have "0 < length e" by simp
  ultimately have "length s - length e < length s" by linarith
  then show "((encs, drop (length e) s), (encs, s)) \<in> measure (\<lambda>(encs, s). length s)"
    by simp
qed

declare strip_leading.simps [simp del]

definition TrimSpace :: "string \<Rightarrow> string" where
  "TrimSpace s =
     rev (strip_leading (map rev space_encodings) (rev (strip_leading space_encodings s)))"

text \<open>Decimal rendering of an integer, as the \<^verbatim>\<open>%d\<close> verb prints it.\<close>

fun itoa_nat :: "nat \<Rightarrow> string" where
  "itoa_nat n =
     (if n < 10 then [char_of (48 + n)]
      else itoa_nat (n div 10) @ [char_of (48 + n mod 10)])"

declare itoa_nat.simps [simp del]

definition itoa :: "int \<Rightarrow> string" where
  "itoa i = (if i < 0 then ''-'' @ itoa_nat (nat (- i)) else itoa_nat (nat i))"

section \<open>Registry data\<close>

record Dist =
  Tarball :: string
  Shasum :: string

text \<open>Go maps are association lists here: the order of the list is the order in which
  a \<^verbatim>\<open>range\<close> loop happens to visit the entries, which Go leaves unspecified, and
  a lookup is \<^const>\<open>map_of\<close>.\<close>

record VersionInfo =
  Version :: string
  Dependencies :: "(string \<times> string) list"
  dist :: Dist

record PackageMetadata =
  Name :: string
  Versions :: "(string \<times> VersionInfo) list"
  DistTags :: "(string \<times> string) list"

record RetryConfig =
  MaxRetries :: int
  RetryDelay :: int
  MaxWaitTime :: int

record RegistryClient =
  baseURL :: string
  retryConfig :: RetryConfig

section \<open>The outside world\<close>

text \<open>
  A response body is the bytes the reader delivers and the error that ends the stream,
  if it does not end with EOF.
\<close>

type_synonym body = "string \<times> error option"

record Response =
  StatusCode :: int
  Status :: string
  ContentLength :: int
  Body :: body

record ProgressBar =
  current :: int
  total :: int
  active :: bool

text \<open>
  The world a call runs in. \<open>respond n url\<close> is what the \<open>n\<close>-th HTTP request made
  since the start gets when it asks for \<open>url\<close>: a transport error or a response.
  \<open>requests\<close> logs the URLs requested so far. \<open>files\<close> are the regular files and their
  contents; \<open>read_err\<close>, \<open>create_err\<close> and \<open>mkdir_err\<close> say where the file system
  refuses. \<open>progressBar\<close> is the download manager's field of that name.
\<close>

record world =
  respond :: "nat \<Rightarrow> string \<Rightarrow> error + Response"
  requests :: "string list"
  files :: "string \<rightharpoonup> string"
  read_err :: "string \<Rightarrow> error option"
  create_err :: "string \<Rightarrow> error option"
  mkdir_err :: "string \<Rightarrow> error option"
  progressBar :: "ProgressBar option"

definition http_Get :: "world \<Rightarrow> string \<Rightarrow> (error + Response) \<times> world" where
  "http_Get w url =
     (respond w (length (requests w)) url, w\<lparr>requests := requests w @ [url]\<rparr>)"

section \<open>Libraries\<close>

text \<open>
  The functions of other packages that the code calls, as parameters:
  \<^verbatim>\<open>semver.NewVersion\<close>, \<^verbatim>\<open>semver.NewConstraint\<close>,
  \<^verbatim>\<open>Constraints.Check\<close>, \<^verbatim>\<open>Version.LessThan\<close> (the \<^verbatim>\<open>Less\<close> of
  \<^verbatim>\<open>semver.Collection\<close>), \<^verbatim>\<open>Version.String\<close> and \<^verbatim>\<open>sort.Sort\<close>
  (given the \<^verbatim>\<open>Less\<close> of the collection it sorts);
  \<^verbatim>\<open>json.Decoder.Decode\<close> into a \<^verbatim>\<open>*PackageMetadata\<close> (it takes the body
  and the target and returns the error and the target as decoding left it); the
  hex-encoded SHA-1 digest; \<^verbatim>\<open>filepath.Join\<close>, \<^verbatim>\<open>filepath.Dir\<close> and
  the error of \<^verbatim>\<open>http.NewRequest\<close> for a URL.
\<close>

record ('v, 'c) libs =
  NewVersion :: "string \<Rightarrow> error + 'v"
  NewConstraint :: "string \<Rightarrow> error + 'c"
  Check :: "'c \<Rightarrow> 'v \<Rightarrow> bool"
  LessThan :: "'v \<Rightarrow> 'v \<Rightarrow> bool"
  VersionString :: "'v \<Rightarrow> string"
  sort_Sort :: "('v \<Rightarrow> 'v \<Rightarrow> bool) \<Rightarrow> 'v list \<Rightarrow> 'v list"
  json_Decode :: "body \<Rightarrow> PackageMetadata \<Rightarrow> error option \<times> PackageMetadata"
  sha1_hex :: "string \<Rightarrow> string"
  filepath_Join :: "string list \<Rightarrow> string"
  filepath_Dir :: "string \<Rightarrow> string"
  http_NewRequest :: "string \<Rightarrow> error option"

section \<open>The registry client\<close>

text \<open>
  One pass through the body of the loop of \<^verbatim>\<open>fetchWithRetry\<close>, after the request:
  \<open>Some\<close> error is the new \<^verbatim>\<open>lastErr\<close> of a pass that ends in
  \<^verbatim>\<open>continue\<close>, \<open>None\<close> is the pass that reaches \<^verbatim>\<open>return nil\<close>.
\<close>

definition attempt_result ::
  "('v, 'c) libs \<Rightarrow> error + Response \<Rightarrow> PackageMetadata \<Rightarrow> error option \<times> PackageMetadata"
where
  "attempt_result E r target =
     (case r of
        Inl err \<Rightarrow> (Some err, target)
      | Inr resp \<Rightarrow>
          if StatusCode resp = 429
          then (Some (ZapError ''rate_limited'' ''too many requests to registry'' None), target)
          else if StatusCode resp \<ge> 400
          then (Some (ZapError ''http_error''
                  (''HTTP '' @ itoa (StatusCode resp) @ '': '' @ fst (Body resp)) None), target)
          else (case json_Decode E (Body resp) target of
                  (Some err, target') \<Rightarrow>
                    (Some (ZapError ''parse_error'' ''failed to parse registry response''
                             (Some err)), target')
                | (None, target') \<Rightarrow> (None, target')))"

text \<open>
  \<^verbatim>\<open>for attempt := 0; attempt <= c.retryConfig.MaxRetries; attempt++\<close>, from a
  given \<open>attempt\<close> and \<^verbatim>\<open>lastErr\<close>. The sleep before a retry takes time and
  nothing else; time is not part of the world. Go's \<^verbatim>\<open>int\<close> has 64 bits; the
  counter stays below \<open>MaxRetries + 2\<close>.
\<close>

function fetch_loop ::
  "('v, 'c) libs \<Rightarrow> RegistryClient \<Rightarrow> string \<Rightarrow> int \<Rightarrow> error option \<Rightarrow> PackageMetadata \<Rightarrow> world
     \<Rightarrow> error option \<times> PackageMetadata \<times> world"
where
  "fetch_loop E c url attempt lastErr target w =
     (if attempt \<le> MaxRetries (retryConfig c) then
        (case http_Get w url of
           (r, w') \<Rightarrow>
             (case attempt_result E r target of
                (Some err, target') \<Rightarrow> fetch_loop E c url (attempt + 1) (Some err) target' w'
              | (None, target') \<Rightarrow> (None, target', w')))
      else (lastErr, target, w))"
  by pat_completeness auto
termination
  by (relation "measure (\<lambda>(E, c, url, attempt, lastErr, target, w).
        nat (MaxRetries (retryConfig c) + 1 - attempt))") auto

declare fetch_loop.simps [simp del]

definition fetchWithRetry ::
  "('v, 'c) libs \<Rightarrow> RegistryClient \<Rightarrow> string \<Rightarrow> PackageMetadata \<Rightarrow> world
     \<Rightarrow> error option \<times> PackageMetadata \<times> world"
where
  "fetchWithRetry E c url target w = fetch_loop E c url 0 None target w"

definition zero_metadata :: PackageMetadata where
  "zero_metadata = \<lparr>Name = [], Versions = [], DistTags = []\<rparr>"

definition GetPackageMetadata ::
  "('v, 'c) libs \<Rightarrow> RegistryClient \<Rightarrow> string \<Rightarrow> world \<Rightarrow> (error + PackageMetadata) \<times> world"
where
  "GetPackageMetadata E c name w =
     (let url = baseURL c @ ''/'' @ name in
      case fetchWithRetry E c url zero_metadata w of
        (err, metadata, w') \<Rightarrow>
          (case Wrap err (''failed to fetch metadata for package '' @ name) of
             Some e \<Rightarrow> (Inl e, w')
           | None \<Rightarrow> (Inr metadata, w')))"

definition isExactVersion :: "('v, 'c) libs \<Rightarrow> string \<Rightarrow> bool" where
  "isExactVersion E version0 =
     (let version = TrimSpace version0 in
      if HasPrefix version ''^'' \<or> HasPrefix version ''~'' \<or> HasPrefix version ''>'' \<or>
         HasPrefix version ''<'' \<or> HasPrefix version ''='' \<or>
         version = ''latest'' \<or> version = ''*''
      then False
      else (case NewVersion E version of Inl err \<Rightarrow> False | Inr v \<Rightarrow> True))"

text \<open>The loop that parses the keys of \<^verbatim>\<open>metadata.Versions\<close>, skipping those
  \<^verbatim>\<open>semver.NewVersion\<close> rejects.\<close>

fun parse_versions :: "('v, 'c) libs \<Rightarrow> string list \<Rightarrow> 'v list" where
  "parse_versions E [] = []"
| "parse_versions E (version # rest) =
     (case NewVersion E version of
        Inl err \<Rightarrow> parse_versions E rest
      | Inr v \<Rightarrow> v # parse_versions E rest)"

text \<open>\<^verbatim>\<open>sort.Sort(sort.Reverse(semver.Collection(versions)))\<close>: the
  \<^verbatim>\<open>Less\<close> of the reversed collection swaps its arguments.\<close>

definition sort_descending :: "('v, 'c) libs \<Rightarrow> 'v list \<Rightarrow> 'v list" where
  "sort_descending E versions = sort_Sort E (\<lambda>a b. LessThan E b a) versions"

definition resolveVersion ::
  "('v, 'c) libs \<Rightarrow> RegistryClient \<Rightarrow> string \<Rightarrow> string \<Rightarrow> world \<Rightarrow> (error + string) \<times> world"
where
  "resolveVersion E c name versionConstraint w =
     (if isExactVersion E versionConstraint then (Inr versionConstraint, w)
      else
        (case GetPackageMetadata E c name w of
           (Inl err, w') \<Rightarrow> (Inl (Errorf ''failed to get package metadata: %w'' [err]), w')
         | (Inr metadata, w') \<Rightarrow>
             (case NewConstraint E versionConstraint of
                Inl err \<Rightarrow>
                  (Inl (Errorf (''invalid version constraint '' @ versionConstraint @ '': %w'')
                          [err]), w')
              | Inr constraint \<Rightarrow>
                  (let versions = sort_descending E
                         (parse_versions E (map fst (Versions metadata)))
                   in case find (Check E constraint) versions of
                        Some v \<Rightarrow> (Inr (VersionString E v), w')
                      | None \<Rightarrow>
                          (Inl (Errorf (''no version found matching constraint '' @
                                  versionConstraint) []), w')))))"

definition GetPackageVersion ::
  "('v, 'c) libs \<Rightarrow> RegistryClient \<Rightarrow> string \<Rightarrow> string \<Rightarrow> world \<Rightarrow> (error + VersionInfo) \<times> world"
where
  "GetPackageVersion E c name versionConstraint w =
     (case resolveVersion E c name versionConstraint w of
        (Inl err, w1) \<Rightarrow> (Inl err, w1)
      | (Inr version, w1) \<Rightarrow>
          (case GetPackageMetadata E c name w1 of
             (Inl err, w2) \<Rightarrow> (Inl err, w2)
           | (Inr metadata, w2) \<Rightarrow>
               (case map_of (Versions metadata) version of
                  None \<Rightarrow>
                    (Inl (ZapError ''version_not_found''
                            (''version '' @ version @ '' not found for package '' @ name) None),
                     w2)
                | Some versionInfo \<Rightarrow> (Inr versionInfo, w2))))"

text \<open>The response that the \<open>i\<close>-th request made from world \<open>w\<close> on gets for \<open>url\<close>.\<close>

definition response_at :: "world \<Rightarrow> string \<Rightarrow> nat \<Rightarrow> error + Response" where
  "response_at w url i = respond w (length (requests w) + i) url"

section \<open>What the code relies on from the libraries\<close>

text \<open>
  \<^verbatim>\<open>sort.Sort\<close> on the reversed collection returns a permutation of its input in
  which no element is \<^verbatim>\<open>LessThan\<close> a later one.
\<close>

definition sorts_descending :: "('v, 'c) libs \<Rightarrow> bool" where
  "sorts_descending E =
     (\<forall>xs. mset (sort_descending E xs) = mset xs \<and>
           sorted_wrt (\<lambda>a b. \<not> LessThan E a b) (sort_descending E xs))"

section \<open>The download manager\<close>

definition defaultConcurrency :: int where
  "defaultConcurrency = 3"

record DownloadOptions =
  Concurrency :: int
  UseCache :: bool
  ShowProgress :: bool
  Timeout :: int

text \<open>\<^verbatim>\<open>DownloadResult\<close>. Its fields \<^verbatim>\<open>Version\<close> and \<^verbatim>\<open>Shasum\<close> are
  \<open>ResultVersion\<close> and \<open>ResultShasum\<close> here, the plain names being fields of
  \<^typ>\<open>VersionInfo\<close> and \<^typ>\<open>Dist\<close> already.\<close>

record DownloadResult =
  PackageName :: string
  ResultVersion :: string
  Path :: string
  ResultShasum :: string
  Error :: "error option"

record DownloadManager =
  registry :: RegistryClient
  cacheDir :: string

subsection \<open>File system and transfer primitives\<close>

text \<open>\<^verbatim>\<open>os.Stat\<close> succeeds on the paths that hold a file.\<close>

definition os_Stat :: "world \<Rightarrow> string \<Rightarrow> error option" where
  "os_Stat w path =
     (case files w path of None \<Rightarrow> Some (LibError ''no such file or directory'') | Some content \<Rightarrow> None)"

definition os_ReadFile :: "world \<Rightarrow> string \<Rightarrow> error + string" where
  "os_ReadFile w path =
     (case files w path of
        None \<Rightarrow> Inl (LibError ''no such file or directory'')
      | Some content \<Rightarrow> (case read_err w path of Some err \<Rightarrow> Inl err | None \<Rightarrow> Inr content))"

text \<open>\<^verbatim>\<open>os.Remove\<close>: the callers drop its error; the file is gone afterwards.\<close>

definition os_Remove :: "world \<Rightarrow> string \<Rightarrow> world" where
  "os_Remove w path = w\<lparr>files := (files w)(path := None)\<rparr>"

text \<open>\<^verbatim>\<open>os.MkdirAll\<close>: directories are not part of the world, only its refusal is.\<close>

definition os_MkdirAll :: "world \<Rightarrow> string \<Rightarrow> error option" where
  "os_MkdirAll w dir = mkdir_err w dir"

text \<open>\<^verbatim>\<open>os.Create\<close> makes the file or truncates the one that is there.\<close>

definition os_Create :: "world \<Rightarrow> string \<Rightarrow> error + world" where
  "os_Create w path =
     (case create_err w path of
        Some err \<Rightarrow> Inl err
      | None \<Rightarrow> Inr (w\<lparr>files := (files w)(path \<mapsto> [])\<rparr>))"

text \<open>\<^verbatim>\<open>dm.client.Do(req)\<close>: a request like any other.\<close>

definition client_Do :: "world \<Rightarrow> string \<Rightarrow> (error + Response) \<times> world" where
  "client_Do w url = http_Get w url"

text \<open>\<^verbatim>\<open>NewProgressBar\<close>; the start time and the goroutine that redraws the bar
  are left out.\<close>

definition NewProgressBar :: "int \<Rightarrow> ProgressBar" where
  "NewProgressBar n = \<lparr>current = 0, total = n, active = True\<rparr>"

text \<open>What reading a whole body through \<^verbatim>\<open>ProgressReader.Read\<close> does to the bar:
  every read adds its byte count, and the read that meets EOF finishes the bar.\<close>

definition proxy_read :: "ProgressBar \<Rightarrow> body \<Rightarrow> ProgressBar" where
  "proxy_read bar b =
     bar\<lparr>current := current bar + int (length (fst b)),
         active := (case snd b of None \<Rightarrow> False | Some err \<Rightarrow> active bar)\<rparr>"

text \<open>
  \<^verbatim>\<open>io.Copy(io.MultiWriter(out, hash), reader)\<close> on a file that
  \<^verbatim>\<open>os.Create\<close> has just emptied: the bytes the body delivers reach the file and
  the digest, and the error that ends the body, if any, is the error of the copy. With
  \<open>proxied\<close> the reader is the proxy reader of \<^verbatim>\<open>dm.progressBar\<close>.
\<close>

definition io_Copy :: "world \<Rightarrow> string \<Rightarrow> body \<Rightarrow> bool \<Rightarrow> error option \<times> world" where
  "io_Copy w targetPath b proxied =
     (let w1 = (if proxied
                then w\<lparr>progressBar := map_option (\<lambda>bar. proxy_read bar b) (progressBar w)\<rparr>
                else w)
      in (snd b, w1\<lparr>files := (files w1)(targetPath \<mapsto> fst b)\<rparr>))"

subsection \<open>\<^verbatim>\<open>checkCache\<close>, \<^verbatim>\<open>downloadFile\<close>, \<^verbatim>\<open>DownloadPackage\<close>\<close>

definition checkCache ::
  "('v, 'c) libs \<Rightarrow> DownloadManager \<Rightarrow> string \<Rightarrow> string \<Rightarrow> string \<Rightarrow> world
     \<Rightarrow> (string \<times> bool \<times> error option) \<times> world"
where
  "checkCache E dm name version expectedShasum w =
     (let path = filepath_Join E [cacheDir dm, name, version, ''package.tgz''] in
      case os_Stat w path of
        Some err \<Rightarrow> (([], False, None), w)
      | None \<Rightarrow>
          (case os_ReadFile w path of
             Inl err \<Rightarrow> (([], False, None), w)
           | Inr content \<Rightarrow>
               (let actualShasum = sha1_hex E content in
                if actualShasum \<noteq> expectedShasum
                then (([], False,
                       Some (Errorf (''checksum mismatch in cached file (expected: '' @
                               expectedShasum @ '', got: '' @ actualShasum @ '')'') [])),
                      os_Remove w path)
                else ((path, True, None), w))))"

definition downloadFile ::
  "('v, 'c) libs \<Rightarrow> DownloadManager \<Rightarrow> string \<Rightarrow> string \<Rightarrow> string \<Rightarrow> bool \<Rightarrow> world
     \<Rightarrow> error option \<times> world"
where
  "downloadFile E dm url targetPath expectedShasum showProgress w =
     (case os_MkdirAll w (filepath_Dir E targetPath) of
        Some err \<Rightarrow> (Some (Errorf ''failed to create target directory: %w'' [err]), w)
      | None \<Rightarrow>
          (case os_Create w targetPath of
             Inl err \<Rightarrow> (Some (Errorf ''failed to create target file: %w'' [err]), w)
           | Inr w1 \<Rightarrow>
               (case http_NewRequest E url of
                  Some err \<Rightarrow> (Some (Errorf ''failed to create request: %w'' [err]), w1)
                | None \<Rightarrow>
                    (case client_Do w1 url of
                       (Inl err, w2) \<Rightarrow> (Some (Errorf ''failed to download file: %w'' [err]), w2)
                     | (Inr resp, w2) \<Rightarrow>
                         if StatusCode resp \<noteq> 200
                         then (Some (Errorf (''failed to download file (status '' @
                                       itoa (StatusCode resp) @ ''): '' @ Status resp) []), w2)
                         else
                           (let w3 = (if showProgress
                                      then w2\<lparr>progressBar :=
                                             Some (NewProgressBar (ContentLength resp))\<rparr>
                                      else w2)
                            in case io_Copy w3 targetPath (Body resp) showProgress of
                                 (Some err, w4) \<Rightarrow>
                                   (Some (Errorf ''download interrupted: %w'' [err]),
                                    os_Remove w4 targetPath)
                               | (None, w4) \<Rightarrow>
                                   (let actualShasum = sha1_hex E (fst (Body resp)) in
                                    if actualShasum \<noteq> expectedShasum
                                    then (Some (Errorf (''checksum mismatch (expected: '' @
                                                  expectedShasum @ '', got: '' @ actualShasum @
                                                  '')'') []),
                                          os_Remove w4 targetPath)
                                    else (None, w4)))))))"

definition DownloadPackage ::
  "('v, 'c) libs \<Rightarrow> DownloadManager \<Rightarrow> string \<Rightarrow> string \<Rightarrow> DownloadOptions \<Rightarrow> world
     \<Rightarrow> (error + DownloadResult) \<times> world"
where
  "DownloadPackage E dm name version opts w =
     (case GetPackageVersion E (registry dm) name version w of
        (Inl err, w1) \<Rightarrow> (Inl (Errorf ''failed to get package metadata: %w'' [err]), w1)
      | (Inr versionInfo, w1) \<Rightarrow>
          (let fetch = (\<lambda>w2.
                 let targetDir = filepath_Join E [cacheDir dm, name, version];
                     targetPath = filepath_Join E [targetDir, ''package.tgz'']
                 in case downloadFile E dm (Tarball (dist versionInfo)) targetPath
                           (Shasum (dist versionInfo)) (ShowProgress opts) w2 of
                      (Some err, w3) \<Rightarrow> (Inl err, w3)
                    | (None, w3) \<Rightarrow>
                        (Inr \<lparr>PackageName = name, ResultVersion = version, Path = targetPath,
                              ResultShasum = Shasum (dist versionInfo), Error = None\<rparr>, w3))
           in if UseCache opts then
                (case checkCache E dm name version (Shasum (dist versionInfo)) w1 of
                   ((cachedPath, exists, Some err), w2) \<Rightarrow>
                     (Inl (Errorf ''cache validation failed: %w'' [err]), w2)
                 | ((cachedPath, exists, None), w2) \<Rightarrow>
                     if exists
                     then (Inr \<lparr>PackageName = name, ResultVersion = version, Path = cachedPath,
                                ResultShasum = Shasum (dist versionInfo), Error = None\<rparr>, w2)
                     else fetch w2)
              else fetch w1))"

subsection \<open>\<^verbatim>\<open>DownloadDependencies\<close>\<close>

text \<open>
  One goroutine per dependency. A goroutine is \<open>Pending\<close> until its send on the
  semaphore channel goes through, \<open>Running\<close> while it holds the slot, and \<open>Done\<close> once
  it has sent its outcome and given the slot back. The two events of a goroutine are
  the acquisition of a slot, enabled while fewer slots are taken than the channel has
  capacity (\<^verbatim>\<open>opts.Concurrency\<close> at \<^verbatim>\<open>make\<close>), and its finish, at which its
  call of \<^verbatim>\<open>DownloadPackage\<close> takes effect on the world as one step and the outcome
  goes to the result or the error channel. Both channels have room for every goroutine,
  so a finish never blocks. An event that is not enabled gives \<open>None\<close>.
\<close>

datatype task = Pending | Running | Done

datatype event = Acquire nat | Finish nat

record dd_state =
  tasks :: "task list"
  resultsChan :: "DownloadResult list"
  errorsChan :: "error list"
  dworld :: world

definition in_flight :: "task list \<Rightarrow> nat" where
  "in_flight ts = length (filter (\<lambda>t. t = Running) ts)"

fun dd_step ::
  "('v, 'c) libs \<Rightarrow> DownloadManager \<Rightarrow> DownloadOptions \<Rightarrow> (string \<times> string) list \<Rightarrow> event
     \<Rightarrow> dd_state \<Rightarrow> dd_state option"
where
  "dd_step E dm opts deps (Acquire i) s =
     (if i < length (tasks s) \<and> tasks s ! i = Pending \<and>
         int (in_flight (tasks s)) < Concurrency opts
      then Some (s\<lparr>tasks := (tasks s)[i := Running]\<rparr>)
      else None)"
| "dd_step E dm opts deps (Finish i) s =
     (if i < length (tasks s) \<and> i < length deps \<and> tasks s ! i = Running then
        (case deps ! i of
           (name, version) \<Rightarrow>
             (case DownloadPackage E dm name version opts (dworld s) of
                (Inl err, w') \<Rightarrow>
                  Some (s\<lparr>tasks := (tasks s)[i := Done],
                          errorsChan := errorsChan s @
                            [Errorf (''failed to download '' @ name @ ''@'' @ version @ '': %w'')
                               [err]],
                          dworld := w'\<rparr>)
              | (Inr result, w') \<Rightarrow>
                  Some (s\<lparr>tasks := (tasks s)[i := Done],
                          resultsChan := resultsChan s @ [result],
                          dworld := w'\<rparr>)))
      else None)"

fun dd_run ::
  "('v, 'c) libs \<Rightarrow> DownloadManager \<Rightarrow> DownloadOptions \<Rightarrow> (string \<times> string) list \<Rightarrow> event list
     \<Rightarrow> dd_state \<Rightarrow> dd_state option"
where
  "dd_run E dm opts deps [] s = Some s"
| "dd_run E dm opts deps (ev # evs) s =
     (case dd_step E dm opts deps ev s of
        None \<Rightarrow> None
      | Some s' \<Rightarrow> dd_run E dm opts deps evs s')"

text \<open>\<^verbatim>\<open>if opts.Concurrency <= 0 { opts.Concurrency = defaultConcurrency }\<close>\<close>

definition set_concurrency :: "DownloadOptions \<Rightarrow> DownloadOptions" where
  "set_concurrency opts =
     (if Concurrency opts \<le> 0 then opts\<lparr>Concurrency := defaultConcurrency\<rparr> else opts)"

definition dd_init :: "(string \<times> string) list \<Rightarrow> world \<Rightarrow> dd_state" where
  "dd_init deps w =
     \<lparr>tasks = replicate (length deps) Pending, resultsChan = [], errorsChan = [], dworld = w\<rparr>"

text \<open>
  \<^verbatim>\<open>DownloadDependencies\<close> under a schedule, the order in which the events of the
  goroutines happen. The two \<^verbatim>\<open>range\<close> loops over the channels end when the
  channels are closed, which is after \<^verbatim>\<open>wg.Wait()\<close>: the call returns once every
  goroutine is done. \<open>None\<close> says that the call has not returned: the schedule asks for
  an event that is not enabled, or it leaves a goroutine unfinished.
\<close>

definition DownloadDependencies ::
  "('v, 'c) libs \<Rightarrow> DownloadManager \<Rightarrow> string \<Rightarrow> string \<Rightarrow> DownloadOptions \<Rightarrow> event list \<Rightarrow> world
     \<Rightarrow> (DownloadResult list \<times> error option \<times> world) option"
where
  "DownloadDependencies E dm name version opts0 sched w =
     (case GetPackageVersion E (registry dm) name version w of
        (Inl err, w1) \<Rightarrow> Some ([], Some (Errorf ''failed to get package metadata: %w'' [err]), w1)
      | (Inr versionInfo, w1) \<Rightarrow>
          if length (Dependencies versionInfo) = 0 then Some ([], None, w1)
          else
            (let opts = set_concurrency opts0 in
             case dd_run E dm opts (Dependencies versionInfo) sched
                    (dd_init (Dependencies versionInfo) w1) of
               None \<Rightarrow> None
             | Some s \<Rightarrow>
                 if list_all (\<lambda>t. t = Done) (tasks s)
                 then Some (resultsChan s,
                            (if length (errorsChan s) > 0
                             then Some (Errorf ''some dependencies failed to download: %v''
                                          (errorsChan s))
                             else None),
                            dworld s)
                 else None))"

section \<open>Outcomes of a dependency download\<close>

text \<open>
  Notions used to state what \<^const>\<open>DownloadDependencies\<close> returns. An outcome list pairs
  the index of a dependency with what its goroutine got from \<^verbatim>\<open>DownloadPackage\<close>,
  in the order in which the goroutines finished. \<open>results_of\<close> are the results among
  the outcomes and \<open>errors_of\<close> the failures, each wrapped as the goroutine wraps it.
  \<open>collected\<close> relates a state of the run to the outcomes so far: one outcome for each
  goroutine that is done, each produced by \<^verbatim>\<open>DownloadPackage\<close> for its dependency,
  and the two channels holding exactly the results and the errors. \<open>unfinished\<close> counts
  the goroutines that are not done.
\<close>

definition results_of :: "(nat \<times> (error + DownloadResult)) list \<Rightarrow> DownloadResult list" where
  "results_of outs = [r. (i, Inr r) \<leftarrow> outs]"

definition errors_of ::
  "(string \<times> string) list \<Rightarrow> (nat \<times> (error + DownloadResult)) list \<Rightarrow> error list" where
  "errors_of deps outs =
     [Errorf (''failed to download '' @ fst (deps ! i) @ ''@'' @ snd (deps ! i) @ '': %w'') [err].
        (i, Inl err) \<leftarrow> outs]"

definition collected ::
  "('v, 'c) libs \<Rightarrow> DownloadManager \<Rightarrow> DownloadOptions \<Rightarrow> (string \<times> string) list \<Rightarrow> dd_state
     \<Rightarrow> (nat \<times> (error + DownloadResult)) list \<Rightarrow> bool"
where
  "collected E dm opts deps s outs \<longleftrightarrow>
     distinct (map fst outs) \<and>
     set (map fst outs) = {i. i < length (tasks s) \<and> tasks s ! i = Done} \<and>
     (\<forall>(i, out) \<in> set outs. i < length deps \<and>
        (\<exists>wk. fst (DownloadPackage E dm (fst (deps ! i)) (snd (deps ! i)) opts wk) = out)) \<and>
     resultsChan s = results_of outs \<and>
     errorsChan s = errors_of deps outs"

definition unfinished :: "task list \<Rightarrow> nat" where
  "unfinished ts = length (filter (\<lambda>t. t \<noteq> Done) ts)"

section \<open>A concrete instance for evaluation\<close>

text \<open>
  A small instance of the library parameters, used to run the definitions on concrete
  inputs: versions are \<^verbatim>\<open>MAJOR[.MINOR[.PATCH]]\<close> with an optional leading
  \<^verbatim>\<open>v\<close>, printed as \<^verbatim>\<open>MAJOR.MINOR.PATCH\<close>; constraints are caret
  and \<^verbatim>\<open>>=\<close> ranges; sorting is insertion sort; a document is decoded by
  looking its bytes up in a table; the digest prefixes its input.
\<close>

definition digit_of :: "char \<Rightarrow> nat option" where
  "digit_of c = (let n = (of_char c :: nat) in if 48 \<le> n \<and> n \<le> 57 then Some (n - 48) else None)"

fun parse_nat_acc :: "nat \<Rightarrow> string \<Rightarrow> nat option" where
  "parse_nat_acc acc [] = Some acc"
| "parse_nat_acc acc (c # cs) =
     (case digit_of c of None \<Rightarrow> None | Some d \<Rightarrow> parse_nat_acc (10 * acc + d) cs)"

definition parse_nat :: "string \<Rightarrow> nat option" where
  "parse_nat s = (if s = [] then None else parse_nat_acc 0 s)"

fun split_dots :: "string \<Rightarrow> string \<Rightarrow> string list" where
  "split_dots acc [] = [rev acc]"
| "split_dots acc (c # cs) =
     (if c = CHR ''.'' then rev acc # split_dots [] cs else split_dots (c # acc) cs)"

type_synonym demo_version = "nat \<times> nat \<times> nat"

definition demo_NewVersion :: "string \<Rightarrow> error + demo_version" where
  "demo_NewVersion s =
     (let digits = (if HasPrefix s ''v'' then drop 1 s else s) in
      case map parse_nat (split_dots [] digits) of
        [Some a] \<Rightarrow> Inr (a, 0, 0)
      | [Some a, Some b] \<Rightarrow> Inr (a, b, 0)
      | [Some a, Some b, Some c] \<Rightarrow> Inr (a, b, c)
      | _ \<Rightarrow> Inl (LibError ''Invalid Semantic Version''))"

definition demo_LessThan :: "demo_version \<Rightarrow> demo_version \<Rightarrow> bool" where
  "demo_LessThan x y =
     (case (x, y) of ((a, b, c), (a', b', c')) \<Rightarrow>
        a < a' \<or> (a = a' \<and> (b < b' \<or> (b = b' \<and> c < c'))))"

definition demo_String :: "demo_version \<Rightarrow> string" where
  "demo_String x =
     (case x of (a, b, c) \<Rightarrow> itoa_nat a @ ''.'' @ itoa_nat b @ ''.'' @ itoa_nat c)"

datatype demo_constraint = Caret demo_version | AtLeast demo_version

definition demo_NewConstraint :: "string \<Rightarrow> error + demo_constraint" where
  "demo_NewConstraint s =
     (if HasPrefix s ''^'' then
        (case demo_NewVersion (drop 1 s) of
           Inr v \<Rightarrow> Inr (Caret v) | Inl e \<Rightarrow> Inl (LibError ''improper constraint''))
      else if HasPrefix s ''>='' then
        (case demo_NewVersion (drop 2 s) of
           Inr v \<Rightarrow> Inr (AtLeast v) | Inl e \<Rightarrow> Inl (LibError ''improper constraint''))
      else Inl (LibError ''improper constraint''))"

fun demo_Check :: "demo_constraint \<Rightarrow> demo_version \<Rightarrow> bool" where
  "demo_Check (Caret base) v = (fst v = fst base \<and> \<not> demo_LessThan v base)"
| "demo_Check (AtLeast base) v = (\<not> demo_LessThan v base)"

fun insert_by :: "('a \<Rightarrow> 'a \<Rightarrow> bool) \<Rightarrow> 'a \<Rightarrow> 'a list \<Rightarrow> 'a list" where
  "insert_by lt x [] = [x]"
| "insert_by lt x (y # ys) = (if lt y x then y # insert_by lt x ys else x # y # ys)"

definition insertion_sort :: "('a \<Rightarrow> 'a \<Rightarrow> bool) \<Rightarrow> 'a list \<Rightarrow> 'a list" where
  "insertion_sort lt xs = foldr (insert_by lt) xs []"

definition demo_Decode ::
  "(string \<times> PackageMetadata) list \<Rightarrow> body \<Rightarrow> PackageMetadata \<Rightarrow> error option \<times> PackageMetadata"
where
  "demo_Decode documents b target =
     (case snd b of
        Some err \<Rightarrow> (Some err, target)
      | None \<Rightarrow>
          (case map_of documents (fst b) of
             None \<Rightarrow> (Some (LibError ''invalid character''), target)
           | Some m \<Rightarrow> (None, m)))"

definition demo_Join :: "string list \<Rightarrow> string" where
  "demo_Join parts = foldr (\<lambda>p acc. if acc = [] then p else p @ ''/'' @ acc) (filter (\<lambda>p. p \<noteq> []) parts) []"

definition demo_Dir :: "string \<Rightarrow> string" where
  "demo_Dir p = rev (drop 1 (dropWhile (\<lambda>c. c \<noteq> CHR ''/'') (rev p)))"

definition demo :: "(string \<times> PackageMetadata) list \<Rightarrow> (demo_version, demo_constraint) libs" where
  "demo documents =
     \<lparr>NewVersion = demo_NewVersion, NewConstraint = demo_NewConstraint, Check = demo_Check,
      LessThan = demo_LessThan, VersionString = demo_String, sort_Sort = insertion_sort,
      json_Decode = demo_Decode documents, sha1_hex = (\<lambda>s. ''sha1:'' @ s),
      filepath_Join = demo_Join, filepath_Dir = demo_Dir,
      http_NewRequest = (\<lambda>url. if url = [] then Some (LibError ''empty url'') else None)\<rparr>"

definition express_info :: "string \<Rightarrow> VersionInfo" where
  "express_info v =
     \<lparr>Version = v, Dependencies = [(''body-parser'', ''1.19.0''), (''cookie'', ''0.4.0'')],
      dist = \<lparr>Tarball = ''http://registry/express/-/express-'' @ v @ ''.tgz'',
              Shasum = ''sha1:express-'' @ v @ ''-content''\<rparr>\<rparr>"

definition express_metadata :: PackageMetadata where
  "express_metadata =
     \<lparr>Name = ''express'',
      Versions = [(''4.17.1'', express_info ''4.17.1''), (''not-a-version'', express_info ''x''),
                  (''4.17.2'', express_info ''4.17.2'')],
      DistTags = [(''latest'', ''4.17.2'')]\<rparr>"

definition ok_response :: "string \<Rightarrow> Response" where
  "ok_response b = \<lparr>StatusCode = 200, Status = ''200 OK'', ContentLength = int (length b), Body = (b, None)\<rparr>"

definition status_response :: "int \<Rightarrow> string \<Rightarrow> Response" where
  "status_response code st = \<lparr>StatusCode = code, Status = st, ContentLength = 0, Body = ([], None)\<rparr>"

definition demo_client :: RegistryClient where
  "demo_client = \<lparr>baseURL = ''http://registry'',
      retryConfig = \<lparr>MaxRetries = 3, RetryDelay = 1000000000, MaxWaitTime = 60000000000\<rparr>\<rparr>"

definition demo_world :: "(nat \<Rightarrow> string \<Rightarrow> error + Response) \<Rightarrow> world" where
  "demo_world srv = \<lparr>respond = srv, requests = [], files = Map.empty,
      read_err = (\<lambda>p. None), create_err = (\<lambda>p. None), mkdir_err = (\<lambda>p. None),
      progressBar = None\<rparr>"

definition express_server :: "nat \<Rightarrow> string \<Rightarrow> error + Response" where
  "express_server n url =
     (if url = ''http://registry/express'' then Inr (ok_response ''express.json'')
      else Inr (status_response 404 ''404 Not Found''))"

definition express_docs :: "(string \<times> PackageMetadata) list" where
  "express_docs = [(''express.json'', express_metadata)]"

definition flaky_server :: "nat \<Rightarrow> string \<Rightarrow> error + Response" where
  "flaky_server n url =
     (if n < 2 then Inr (status_response 503 ''503 Service Unavailable'')
      else Inr (ok_response ''test-package.json''))"

definition test_package_metadata :: PackageMetadata where
  "test_package_metadata =
     \<lparr>Name = ''test-package'',
      Versions = [(''1.0.0'', \<lparr>Version = ''1.0.0'', Dependencies = [],
                     dist = \<lparr>Tarball = [], Shasum = []\<rparr>\<rparr>)],
      DistTags = []\<rparr>"

definition test_docs :: "(string \<times> PackageMetadata) list" where
  "test_docs = [(''test-package.json'', test_package_metadata)]"

definition prefixed_metadata :: PackageMetadata where
  "prefixed_metadata =
     \<lparr>Name = ''lib'',
      Versions = [(''v1.0.0'', \<lparr>Version = ''v1.0.0'', Dependencies = [],
                      dist = \<lparr>Tarball = ''http://registry/lib/-/lib-1.0.0.tgz'',
                              Shasum = ''sha1:lib''\<rparr>\<rparr>),
                  (''1.2'', \<lparr>Version = ''1.2'', Dependencies = [],
                      dist = \<lparr>Tarball = ''http://registry/lib/-/lib-1.2.tgz'',
                              Shasum = ''sha1:lib12''\<rparr>\<rparr>)],
      DistTags = []\<rparr>"

definition prefixed_docs :: "(string \<times> PackageMetadata) list" where
  "prefixed_docs = [(''lib.json'', prefixed_metadata)]"

definition lib_server :: "nat \<Rightarrow> string \<Rightarrow> error + Response" where
  "lib_server n url =
     (if url = ''http://registry/lib'' then Inr (ok_response ''lib.json'')
      else Inr (status_response 404 ''404 Not Found''))"

definition demo_manager :: DownloadManager where
  "demo_manager = \<lparr>registry = demo_client, cacheDir = ''cache''\<rparr>"

definition body_parser_metadata :: PackageMetadata where
  "body_parser_metadata =
     \<lparr>Name = ''body-parser'',
      Versions = [(''1.19.0'', \<lparr>Version = ''1.19.0'', Dependencies = [],
                     dist = \<lparr>Tarball = ''http://registry/body-parser/-/body-parser-1.19.0.tgz'',
                             Shasum = ''sha1:body-parser-1.19.0-content''\<rparr>\<rparr>)],
      DistTags = [(''latest'', ''1.19.0'')]\<rparr>"

definition mock_docs :: "(string \<times> PackageMetadata) list" where
  "mock_docs = [(''express.json'', express_metadata), (''body-parser.json'', body_parser_metadata)]"

text \<open>A registry that knows \<^verbatim>\<open>express\<close> and \<^verbatim>\<open>body-parser\<close>, serves the
  archives of \<^verbatim>\<open>express 4.17.1\<close> and \<^verbatim>\<open>body-parser 1.19.0\<close>, and answers 404 to
  everything else.\<close>

definition mock_server :: "nat \<Rightarrow> string \<Rightarrow> error + Response" where
  "mock_server n url =
     (if url = ''http://registry/express'' then Inr (ok_response ''express.json'')
      else if url = ''http://registry/body-parser'' then Inr (ok_response ''body-parser.json'')
      else if url = ''http://registry/express/-/express-4.17.1.tgz''
      then Inr (ok_response ''express-4.17.1-content'')
      else if url = ''http://registry/body-parser/-/body-parser-1.19.0.tgz''
      then Inr (ok_response ''body-parser-1.19.0-content'')
      else Inr (status_response 404 ''404 Not Found''))"

definition demo_options :: DownloadOptions where
  "demo_options = \<lparr>Concurrency = 2, UseCache = True, ShowProgress = True, Timeout = 0\<rparr>"

definition cached_path :: string where
  "cached_path = ''cache/express/4.17.1/package.tgz''"

definition unreadable_world :: world where
  "unreadable_world =
     (demo_world mock_server)
       \<lparr>files := [cached_path \<mapsto> ''express-4.17.1-content''],
        read_err := (\<lambda>p. if p = cached_path then Some (LibError ''permission denied'') else None)\<rparr>"

definition cached_world :: "string \<Rightarrow> world" where
  "cached_world content = (demo_world mock_server)\<lparr>files := [cached_path \<mapsto> content]\<rparr>"

definition express_deps :: "(string \<times> string) list" where
  "express_deps = [(''body-parser'', ''1.19.0''), (''cookie'', ''0.4.0'')]"

definition express_schedule :: "event list" where
  "express_schedule = [Acquire 0, Acquire 1, Finish 1, Finish 0]"

text \<open>A server whose archive body breaks off after eleven bytes.\<close>

definition truncated_server :: "nat \<Rightarrow> string \<Rightarrow> error + Response" where
  "truncated_server n url =
     Inr \<lparr>StatusCode = 200, Status = ''200 OK'', ContentLength = 22,
          Body = (''express-4.1'', Some (LibError ''unexpected EOF''))\<rparr>"

section \<open>Auxiliary facts\<close>

lemma Wrap_Some: "\<exists>e. Wrap (Some err) message = Some e"
  by (cases err) simp_all

lemma set_parse_versions:
  "set (parse_versions E keys) = {v. \<exists>key \<in> set keys. NewVersion E key = Inr v}"
  by (induction keys) (auto split: sum.splits)

lemma find_first_sorted:
  assumes srt: "sorted_wrt (\<lambda>a b. \<not> lt a b) xs"
    and irr: "\<And>x. \<not> lt x x"
    and fnd: "find P xs = Some v"
    and u: "u \<in> set xs" "P u"
  shows "\<not> lt v u"
proof -
  from fnd obtain i where i: "i < length xs" "xs ! i = v" "\<forall>j<i. \<not> P (xs ! j)"
    by (auto simp: find_Some_iff)
  from u obtain j where j: "j < length xs" "xs ! j = u"
    by (auto simp: in_set_conv_nth)
  with u i have "\<not> j < i" by auto
  then consider "j = i" | "i < j" by linarith
  then show ?thesis
  proof cases
    case 1
    with i j irr show ?thesis by auto
  next
    case 2
    with srt i j show ?thesis by (auto simp: sorted_wrt_iff_nth_less)
  qed
qed

lemma find_None_set: "find P xs = None \<longleftrightarrow> (\<forall>x \<in> set xs. \<not> P x)"
  by (auto simp: find_None_iff)

lemma find_Some_set: "find P xs = Some v \<Longrightarrow> v \<in> set xs \<and> P v"
  by (auto simp: find_Some_iff)

lemma mset_insert_by: "mset (insert_by lt x xs) = add_mset x (mset xs)"
  by (induction xs) simp_all

lemma mset_insertion_sort: "mset (insertion_sort lt xs) = mset xs"
  by (induction xs) (simp_all add: insertion_sort_def mset_insert_by)

lemma set_insert_by: "set (insert_by lt x xs) = insert x (set xs)"
  by (induction xs) auto

lemma sorted_insert_by:
  assumes asym: "\<And>a b. lt a b \<Longrightarrow> \<not> lt b a"
    and negtrans: "\<And>a b c. \<not> lt a b \<Longrightarrow> \<not> lt b c \<Longrightarrow> \<not> lt a c"
  shows "sorted_wrt (\<lambda>a b. \<not> lt b a) xs \<Longrightarrow> sorted_wrt (\<lambda>a b. \<not> lt b a) (insert_by lt x xs)"
proof (induction xs)
  case Nil
  show ?case by simp
next
  case (Cons y ys)
  show ?case
  proof (cases "lt y x")
    case True
    with Cons asym show ?thesis by (auto simp: set_insert_by)
  next
    case False
    have "\<not> lt z x" if "z \<in> set ys" for z
    proof -
      from Cons.prems that have "\<not> lt z y" by simp
      then show ?thesis using False by (rule negtrans)
    qed
    with Cons.prems False show ?thesis by simp
  qed
qed

lemma sorted_insertion_sort:
  assumes asym: "\<And>a b. lt a b \<Longrightarrow> \<not> lt b a"
    and negtrans: "\<And>a b c. \<not> lt a b \<Longrightarrow> \<not> lt b c \<Longrightarrow> \<not> lt a c"
  shows "sorted_wrt (\<lambda>a b. \<not> lt b a) (insertion_sort lt xs)"
proof (induction xs)
  case Nil
  show ?case by (simp add: insertion_sort_def)
next
  case (Cons x xs)
  have "insertion_sort lt (x # xs) = insert_by lt x (insertion_sort lt xs)"
    by (simp add: insertion_sort_def)
  with Cons sorted_insert_by [of lt, OF asym negtrans] show ?case by simp
qed

lemma demo_LessThan_irrefl: "\<not> demo_LessThan v v"
  by (simp add: demo_LessThan_def split: prod.splits)

lemma demo_sorts_descending: "sorts_descending (demo documents)"
proof -
  have "sorted_wrt (\<lambda>a b. \<not> demo_LessThan a b)
          (insertion_sort (\<lambda>a b. demo_LessThan b a) xs)" for xs
    by (rule sorted_insertion_sort [of "\<lambda>a b. demo_LessThan b a"])
       (auto simp: demo_LessThan_def)
  then show ?thesis
    by (simp add: sorts_descending_def sort_descending_def demo_def mset_insertion_sort)
qed

section \<open>Version resolution\<close>

text \<open>
  C1. Take a constraint that \<^const>\<open>isExactVersion\<close> rejects and a metadata fetch that
  returned \<open>M\<close>. If \<^verbatim>\<open>semver.NewConstraint\<close> rejects the constraint,
  \<^const>\<open>resolveVersion\<close> fails with the invalid-constraint error that wraps the
  library's error. Otherwise the candidates are the versions that
  \<^verbatim>\<open>semver.NewVersion\<close> parses from the keys of \<open>M.versions\<close>; a key that does
  not parse contributes nothing and raises nothing. If no candidate satisfies the range
  the call fails with the no-matching-version error; if one does, the call returns the
  rendering of a candidate that satisfies the range and that is not less than any other
  candidate satisfying it.
\<close>

theorem resolveVersion_range:
  assumes srt: "sorts_descending E"
    and irr: "\<forall>v. \<not> LessThan E v v"
    and nex: "\<not> isExactVersion E vc"
    and meta: "GetPackageMetadata E c name w = (Inr M, w')"
  shows "case NewConstraint E vc of
           Inl err \<Rightarrow>
             resolveVersion E c name vc w =
               (Inl (Errorf (''invalid version constraint '' @ vc @ '': %w'') [err]), w')
         | Inr k \<Rightarrow>
             if \<exists>key v. key \<in> fst ` set (Versions M) \<and> NewVersion E key = Inr v \<and> Check E k v
             then \<exists>key v. key \<in> fst ` set (Versions M) \<and> NewVersion E key = Inr v \<and>
                    Check E k v \<and>
                    (\<forall>key' u. key' \<in> fst ` set (Versions M) \<and> NewVersion E key' = Inr u \<and>
                        Check E k u \<longrightarrow> \<not> LessThan E v u) \<and>
                    resolveVersion E c name vc w = (Inr (VersionString E v), w')
             else resolveVersion E c name vc w =
                    (Inl (Errorf (''no version found matching constraint '' @ vc) []), w')"
proof (cases "NewConstraint E vc")
  case (Inl err)
  with nex meta show ?thesis by (simp add: resolveVersion_def)
next
  case (Inr k)
  define parsed where "parsed = parse_versions E (map fst (Versions M))"
  define sorted where "sorted = sort_descending E parsed"
  have parsed_set: "set parsed = {v. \<exists>key \<in> fst ` set (Versions M). NewVersion E key = Inr v}"
    by (simp add: parsed_def set_parse_versions)
  from srt have perm: "mset sorted = mset parsed"
    and desc: "sorted_wrt (\<lambda>a b. \<not> LessThan E a b) sorted"
    by (simp_all add: sorts_descending_def sorted_def)
  from perm have set_eq: "set sorted = set parsed" by (rule mset_eq_setD)
  have res: "resolveVersion E c name vc w =
      (case find (Check E k) sorted of
         Some v \<Rightarrow> (Inr (VersionString E v), w')
       | None \<Rightarrow> (Inl (Errorf (''no version found matching constraint '' @ vc) []), w'))"
    using nex meta Inr by (simp add: resolveVersion_def sorted_def parsed_def)
  show ?thesis
  proof (cases "find (Check E k) sorted")
    case None
    then have "\<forall>v \<in> set parsed. \<not> Check E k v"
      by (simp add: find_None_set set_eq)
    then have "\<not> (\<exists>key v. key \<in> fst ` set (Versions M) \<and> NewVersion E key = Inr v \<and> Check E k v)"
      by (auto simp: parsed_set)
    with res None Inr show ?thesis by simp
  next
    case (Some v)
    then have v: "v \<in> set parsed" "Check E k v"
      using find_Some_set [OF Some] by (simp_all add: set_eq)
    then obtain key where key: "key \<in> fst ` set (Versions M)" "NewVersion E key = Inr v"
      by (auto simp: parsed_set)
    have top: "\<not> LessThan E v u"
      if "key' \<in> fst ` set (Versions M)" "NewVersion E key' = Inr u" "Check E k u" for key' u
    proof -
      from that have u: "u \<in> set sorted" by (auto simp: set_eq parsed_set)
      from irr have irr': "\<And>x. \<not> LessThan E x x" by simp
      from desc irr' Some u that(3) show ?thesis by (rule find_first_sorted)
    qed
    from key v have ex: "\<exists>key v. key \<in> fst ` set (Versions M) \<and> NewVersion E key = Inr v \<and> Check E k v"
      by blast
    from res Some have r: "resolveVersion E c name vc w = (Inr (VersionString E v), w')"
      by simp
    have "key \<in> fst ` set (Versions M) \<and> NewVersion E key = Inr v \<and>
                    Check E k v \<and>
                    (\<forall>key' u. key' \<in> fst ` set (Versions M) \<and> NewVersion E key' = Inr u \<and>
                        Check E k u \<longrightarrow> \<not> LessThan E v u) \<and>
                    resolveVersion E c name vc w = (Inr (VersionString E v), w')"
      using key v(2) top r by blast
    then have "\<exists>key v. key \<in> fst ` set (Versions M) \<and> NewVersion E key = Inr v \<and>
                    Check E k v \<and>
                    (\<forall>key' u. key' \<in> fst ` set (Versions M) \<and> NewVersion E key' = Inr u \<and>
                        Check E k u \<longrightarrow> \<not> LessThan E v u) \<and>
                    resolveVersion E c name vc w = (Inr (VersionString E v), w')"
      by (intro exI)
    with ex Inr show ?thesis by simp
  qed
qed

theorem resolveVersion_range_witness:
  "fst (resolveVersion (demo express_docs) demo_client ''express'' ''^4.17.0''
          (demo_world express_server)) = Inr ''4.17.2'' \<and>
   fst (resolveVersion (demo express_docs) demo_client ''express'' ''^5.0.0''
          (demo_world express_server)) =
     Inl (Errorf ''no version found matching constraint ^5.0.0'' []) \<and>
   fst (resolveVersion (demo express_docs) demo_client ''express'' ''invalid''
          (demo_world express_server)) =
     Inl (Errorf ''invalid version constraint invalid: %w'' [LibError ''improper constraint''])"
proof -
  let ?E = "demo express_docs"
  let ?w = "demo_world express_server"
  let ?w' = "snd (GetPackageMetadata ?E demo_client ''express'' ?w)"
  have irr: "\<forall>v. \<not> LessThan ?E v v"
    by (simp add: demo_def demo_LessThan_irrefl)
  have "fst (GetPackageMetadata ?E demo_client ''express'' ?w) = Inr express_metadata"
    by code_simp
  then have meta: "GetPackageMetadata ?E demo_client ''express'' ?w = (Inr express_metadata, ?w')"
    by (simp add: prod_eq_iff)
  have n1: "\<not> isExactVersion ?E ''^4.17.0''" by code_simp
  have n2: "\<not> isExactVersion ?E ''^5.0.0''" by code_simp
  have n3: "\<not> isExactVersion ?E ''invalid''" by code_simp
  note r1 = resolveVersion_range [OF demo_sorts_descending irr n1 meta]
  note r2 = resolveVersion_range [OF demo_sorts_descending irr n2 meta]
  note r3 = resolveVersion_range [OF demo_sorts_descending irr n3 meta]
  have "fst (resolveVersion ?E demo_client ''express'' ''^4.17.0'' ?w) = Inr ''4.17.2''"
    by code_simp
  moreover have "fst (resolveVersion ?E demo_client ''express'' ''^5.0.0'' ?w) =
     Inl (Errorf ''no version found matching constraint ^5.0.0'' [])"
    by code_simp
  moreover have "fst (resolveVersion ?E demo_client ''express'' ''invalid'' ?w) =
     Inl (Errorf ''invalid version constraint invalid: %w'' [LibError ''improper constraint''])"
    by code_simp
  ultimately show ?thesis using r1 r2 r3 by simp
qed

text \<open>
  C6. A string that \<^verbatim>\<open>semver.NewVersion\<close> parses, that starts with none of
  \<^verbatim>\<open>^ ~ > < =\<close> and that is neither \<^verbatim>\<open>latest\<close> nor \<^verbatim>\<open>*\<close> is returned
  unchanged, and the world is the one the call started in: no request has been made.
  The code tests the string after \<^verbatim>\<open>strings.TrimSpace\<close>; a string that
  \<^verbatim>\<open>semver.NewVersion\<close> parses has no white space around it, which is the
  second hypothesis.
\<close>

theorem resolveVersion_exact:
  assumes "NewVersion E v = Inr ver"
    and "TrimSpace v = v"
    and "\<not> HasPrefix v ''^''" and "\<not> HasPrefix v ''~''" and "\<not> HasPrefix v ''>''"
    and "\<not> HasPrefix v ''<''" and "\<not> HasPrefix v ''=''"
    and "v \<noteq> ''latest''" and "v \<noteq> ''*''"
  shows "resolveVersion E c name v w = (Inr v, w)"
  using assms by (simp add: resolveVersion_def isExactVersion_def)

theorem resolveVersion_exact_witness:
  "fst (resolveVersion (demo express_docs) demo_client ''express'' ''4.17.1''
       (demo_world express_server)) = Inr ''4.17.1'' \<and>
   requests (snd (resolveVersion (demo express_docs) demo_client ''express'' ''4.17.1''
       (demo_world express_server))) = []"
proof -
  have p: "NewVersion (demo express_docs) ''4.17.1'' = Inr (4, 17, 1)" by code_simp
  have t: "TrimSpace ''4.17.1'' = ''4.17.1''" by code_simp
  have "resolveVersion (demo express_docs) demo_client ''express'' ''4.17.1''
       (demo_world express_server) = (Inr ''4.17.1'', demo_world express_server)"
    by (rule resolveVersion_exact [OF p t]) (simp_all add: HasPrefix_def)
  then show ?thesis by (simp add: demo_world_def)
qed

lemma resolveVersion_Inr_cases:
  assumes nex: "\<not> isExactVersion E vc"
    and res: "resolveVersion E c name vc w = (Inr s, w1)"
  obtains M k v where "GetPackageMetadata E c name w = (Inr M, w1)"
    and "NewConstraint E vc = Inr k"
    and "find (Check E k) (sort_descending E (parse_versions E (map fst (Versions M)))) = Some v"
    and "s = VersionString E v"
  using assms
  by (auto simp: resolveVersion_def Let_def split: prod.splits sum.splits option.splits)

text \<open>
  C9. When a constraint that is not an exact version resolves, the string returned is the
  rendering \<^verbatim>\<open>v.String()\<close> of a version parsed from a key of the fetched
  \<open>versions\<close>, not the key. When the metadata that \<^verbatim>\<open>GetPackageVersion\<close> fetches
  next has no key equal to that rendering, \<^verbatim>\<open>GetPackageVersion\<close> fails with
  \<^verbatim>\<open>version_not_found\<close> although the resolution succeeded. The witness has the keys
  \<^verbatim>\<open>v1.0.0\<close> and \<^verbatim>\<open>1.2\<close>: the range \<^verbatim>\<open>^1.0.0\<close> resolves to
  \<^verbatim>\<open>1.2.0\<close>, which is no key.
\<close>

theorem resolveVersion_canonical_string:
  assumes srt: "sorts_descending E"
    and nex: "\<not> isExactVersion E vc"
    and res: "resolveVersion E c name vc w = (Inr s, w1)"
  shows "(\<exists>M key v. GetPackageMetadata E c name w = (Inr M, w1) \<and>
            key \<in> fst ` set (Versions M) \<and> NewVersion E key = Inr v \<and>
            s = VersionString E v) \<and>
         (\<forall>M2 w2. GetPackageMetadata E c name w1 = (Inr M2, w2) \<and>
            s \<notin> fst ` set (Versions M2) \<longrightarrow>
            GetPackageVersion E c name vc w =
              (Inl (ZapError ''version_not_found''
                      (''version '' @ s @ '' not found for package '' @ name) None), w2))"
proof
  from nex res obtain M k v where meta: "GetPackageMetadata E c name w = (Inr M, w1)"
    and found: "find (Check E k) (sort_descending E (parse_versions E (map fst (Versions M)))) = Some v"
    and s: "s = VersionString E v"
    by (rule resolveVersion_Inr_cases)
  from found have "v \<in> set (sort_descending E (parse_versions E (map fst (Versions M))))"
    by (simp add: find_Some_set)
  moreover from srt have "mset (sort_descending E (parse_versions E (map fst (Versions M)))) =
      mset (parse_versions E (map fst (Versions M)))"
    by (simp add: sorts_descending_def)
  then have "set (sort_descending E (parse_versions E (map fst (Versions M)))) =
      set (parse_versions E (map fst (Versions M)))"
    by (rule mset_eq_setD)
  ultimately have "v \<in> set (parse_versions E (map fst (Versions M)))" by simp
  then obtain key where "key \<in> fst ` set (Versions M)" "NewVersion E key = Inr v"
    by (auto simp: set_parse_versions)
  with meta s
  show "\<exists>M key v. GetPackageMetadata E c name w = (Inr M, w1) \<and>
            key \<in> fst ` set (Versions M) \<and> NewVersion E key = Inr v \<and>
            s = VersionString E v"
    by blast
next
  show "\<forall>M2 w2. GetPackageMetadata E c name w1 = (Inr M2, w2) \<and>
            s \<notin> fst ` set (Versions M2) \<longrightarrow>
            GetPackageVersion E c name vc w =
              (Inl (ZapError ''version_not_found''
                      (''version '' @ s @ '' not found for package '' @ name) None), w2)"
  proof (intro allI impI)
    fix M2 w2
    assume a: "GetPackageMetadata E c name w1 = (Inr M2, w2) \<and> s \<notin> fst ` set (Versions M2)"
    then have "map_of (Versions M2) s = None"
      by (simp add: map_of_eq_None_iff)
    with a res show "GetPackageVersion E c name vc w =
              (Inl (ZapError ''version_not_found''
                      (''version '' @ s @ '' not found for package '' @ name) None), w2)"
      by (simp add: GetPackageVersion_def)
  qed
qed

theorem resolveVersion_canonical_string_witness:
  "fst (resolveVersion (demo prefixed_docs) demo_client ''lib'' ''^1.0.0''
          (demo_world lib_server)) = Inr ''1.2.0'' \<and>
   map fst (Versions prefixed_metadata) = [''v1.0.0'', ''1.2''] \<and>
   fst (GetPackageVersion (demo prefixed_docs) demo_client ''lib'' ''^1.0.0''
          (demo_world lib_server)) =
     Inl (ZapError ''version_not_found'' ''version 1.2.0 not found for package lib'' None)"
proof -
  let ?E = "demo prefixed_docs"
  let ?w = "demo_world lib_server"
  let ?w1 = "snd (resolveVersion ?E demo_client ''lib'' ''^1.0.0'' ?w)"
  let ?w2 = "snd (GetPackageMetadata ?E demo_client ''lib'' ?w1)"
  have nex: "\<not> isExactVersion ?E ''^1.0.0''" by code_simp
  have r: "fst (resolveVersion ?E demo_client ''lib'' ''^1.0.0'' ?w) = Inr ''1.2.0''"
    by code_simp
  then have res: "resolveVersion ?E demo_client ''lib'' ''^1.0.0'' ?w = (Inr ''1.2.0'', ?w1)"
    by (simp add: prod_eq_iff)
  have "fst (GetPackageMetadata ?E demo_client ''lib'' ?w1) = Inr prefixed_metadata"
    by code_simp
  then have again: "GetPackageMetadata ?E demo_client ''lib'' ?w1 = (Inr prefixed_metadata, ?w2)"
    by (simp add: prod_eq_iff)
  have keys: "map fst (Versions prefixed_metadata) = [''v1.0.0'', ''1.2'']"
    by (simp add: prefixed_metadata_def)
  then have absent: "''1.2.0'' \<notin> fst ` set (Versions prefixed_metadata)"
    by (simp flip: set_map)
  from resolveVersion_canonical_string [OF demo_sorts_descending nex res] again absent
  have "GetPackageVersion ?E demo_client ''lib'' ''^1.0.0'' ?w =
      (Inl (ZapError ''version_not_found''
              (''version '' @ ''1.2.0'' @ '' not found for package '' @ ''lib'') None), ?w2)"
    by blast
  with r keys show ?thesis by simp
qed

section \<open>Fetching metadata with retries\<close>

lemma fetch_loop_failures:
  assumes "\<forall>i<j. attempt_result E (response_at w url i) (ts i) = (Some (e i), ts (Suc i))"
    and "a + int j \<le> MaxRetries (retryConfig c) + 1"
  shows "fetch_loop E c url a lastErr (ts 0) w =
         fetch_loop E c url (a + int j) (if j = 0 then lastErr else Some (e (j - 1))) (ts j)
           (w\<lparr>requests := requests w @ replicate j url\<rparr>)"
  using assms
proof (induction j arbitrary: a lastErr ts e w)
  case 0
  show ?case by simp
next
  case (Suc j)
  let ?w1 = "w\<lparr>requests := requests w @ [url]\<rparr>"
  from Suc.prems(2) have le: "a \<le> MaxRetries (retryConfig c)" by simp
  from Suc.prems(1) have first: "attempt_result E (response_at w url 0) (ts 0) = (Some (e 0), ts (Suc 0))"
    by simp
  have step: "fetch_loop E c url a lastErr (ts 0) w =
      fetch_loop E c url (a + 1) (Some (e 0)) (ts (Suc 0)) ?w1"
    using le first
    by (subst fetch_loop.simps) (simp add: http_Get_def response_at_def)
  have shifted: "\<forall>i<j. attempt_result E (response_at ?w1 url i) ((ts \<circ> Suc) i) =
      (Some ((e \<circ> Suc) i), (ts \<circ> Suc) (Suc i))"
  proof (intro allI impI)
    fix i assume "i < j"
    then have "Suc i < Suc j" by simp
    with Suc.prems(1)
    have "attempt_result E (response_at w url (Suc i)) (ts (Suc i)) =
        (Some (e (Suc i)), ts (Suc (Suc i)))" by blast
    then show "attempt_result E (response_at ?w1 url i) ((ts \<circ> Suc) i) =
        (Some ((e \<circ> Suc) i), (ts \<circ> Suc) (Suc i))"
      by (simp add: response_at_def)
  qed
  from Suc.prems(2) have bound: "(a + 1) + int j \<le> MaxRetries (retryConfig c) + 1" by simp
  have "fetch_loop E c url (a + 1) (Some (e 0)) ((ts \<circ> Suc) 0) ?w1 =
        fetch_loop E c url ((a + 1) + int j)
          (if j = 0 then Some (e 0) else Some ((e \<circ> Suc) (j - 1))) ((ts \<circ> Suc) j)
          (?w1\<lparr>requests := requests ?w1 @ replicate j url\<rparr>)"
    by (rule Suc.IH [OF shifted bound])
  moreover have "(if j = 0 then Some (e 0) else Some ((e \<circ> Suc) (j - 1))) = Some (e j)"
    by (cases j) simp_all
  moreover have "?w1\<lparr>requests := requests ?w1 @ replicate j url\<rparr> =
      w\<lparr>requests := requests w @ replicate (Suc j) url\<rparr>"
    by simp
  ultimately show ?case using step by (simp add: add.assoc)
qed

lemma fetchWithRetry_exhausted:
  assumes "0 \<le> MaxRetries (retryConfig c)"
    and "\<forall>i \<le> nat (MaxRetries (retryConfig c)).
           attempt_result E (response_at w url i) (ts i) = (Some (e i), ts (Suc i))"
  shows "fetchWithRetry E c url (ts 0) w =
         (Some (e (nat (MaxRetries (retryConfig c)))), ts (Suc (nat (MaxRetries (retryConfig c)))),
          w\<lparr>requests := requests w @ replicate (Suc (nat (MaxRetries (retryConfig c)))) url\<rparr>)"
proof -
  let ?n = "nat (MaxRetries (retryConfig c))"
  from assms(2) have f: "\<forall>i<Suc ?n. attempt_result E (response_at w url i) (ts i) = (Some (e i), ts (Suc i))"
    by (simp add: less_Suc_eq_le)
  from assms(1) have b: "0 + int (Suc ?n) \<le> MaxRetries (retryConfig c) + 1" by simp
  have "fetch_loop E c url 0 None (ts 0) w =
        fetch_loop E c url (0 + int (Suc ?n)) (Some (e ?n)) (ts (Suc ?n))
          (w\<lparr>requests := requests w @ replicate (Suc ?n) url\<rparr>)"
    using fetch_loop_failures [OF f b, of None] by simp
  also have "\<dots> = (Some (e ?n), ts (Suc ?n), w\<lparr>requests := requests w @ replicate (Suc ?n) url\<rparr>)"
    using assms(1) by (subst fetch_loop.simps) simp
  finally show ?thesis by (simp add: fetchWithRetry_def)
qed

lemma fetchWithRetry_succeeds:
  assumes "int k \<le> MaxRetries (retryConfig c)"
    and "\<forall>i<k. attempt_result E (response_at w url i) (ts i) = (Some (e i), ts (Suc i))"
    and "attempt_result E (response_at w url k) (ts k) = (None, t')"
  shows "fetchWithRetry E c url (ts 0) w =
         (None, t', w\<lparr>requests := requests w @ replicate (Suc k) url\<rparr>)"
proof -
  from assms(1) have b: "0 + int k \<le> MaxRetries (retryConfig c) + 1" by simp
  let ?wk = "w\<lparr>requests := requests w @ replicate k url\<rparr>"
  have "fetch_loop E c url 0 None (ts 0) w =
        fetch_loop E c url (0 + int k) (if k = 0 then None else Some (e (k - 1))) (ts k) ?wk"
    by (rule fetch_loop_failures [OF assms(2) b])
  also have "\<dots> = (None, t', ?wk\<lparr>requests := requests ?wk @ [url]\<rparr>)"
    using assms(1,3)
    by (subst fetch_loop.simps) (simp add: http_Get_def response_at_def)
  also have "?wk\<lparr>requests := requests ?wk @ [url]\<rparr> =
      w\<lparr>requests := requests w @ replicate (Suc k) url\<rparr>"
    by (simp add: replicate_append_same)
  finally show ?thesis by (simp add: fetchWithRetry_def)
qed

lemma itoa_503: "itoa 503 = ''503''" by code_simp
lemma itoa_404: "itoa 404 = ''404''" by code_simp

text \<open>
  C7. The first five conjuncts classify one pass of the loop: a transport error, a 429, any
  other status of 400 or more and a failed decode each become the new \<^verbatim>\<open>lastErr\<close> of
  a pass that continues; a decode that succeeds ends the call. The sixth: when every one
  of the \<open>MaxRetries + 1\<close> attempts fails, the call makes exactly that many requests
  and fails with the error of the last attempt. The seventh: when the first \<open>k\<close>
  attempts fail and attempt \<open>k\<close> (within the budget) decodes, the call succeeds with
  the decoded target after exactly \<open>k + 1\<close> requests and makes no further one; for
  \<open>k = 2\<close>, two failures and a success, these are three requests. Here \<open>ts i\<close> is
  the target as attempt \<open>i\<close> finds it and \<open>e i\<close> the error attempt \<open>i\<close> records.
\<close>

theorem fetchWithRetry_retries:
  "(\<forall>err t. attempt_result E (Inl err) t = (Some err, t)) \<and>
   (\<forall>resp t. StatusCode resp = 429 \<longrightarrow>
      attempt_result E (Inr resp) t =
        (Some (ZapError ''rate_limited'' ''too many requests to registry'' None), t)) \<and>
   (\<forall>resp t. StatusCode resp \<ge> 400 \<and> StatusCode resp \<noteq> 429 \<longrightarrow>
      attempt_result E (Inr resp) t =
        (Some (ZapError ''http_error''
                 (''HTTP '' @ itoa (StatusCode resp) @ '': '' @ fst (Body resp)) None), t)) \<and>
   (\<forall>resp t err t'. StatusCode resp < 400 \<and> json_Decode E (Body resp) t = (Some err, t') \<longrightarrow>
      attempt_result E (Inr resp) t =
        (Some (ZapError ''parse_error'' ''failed to parse registry response'' (Some err)), t')) \<and>
   (\<forall>resp t t'. StatusCode resp < 400 \<and> json_Decode E (Body resp) t = (None, t') \<longrightarrow>
      attempt_result E (Inr resp) t = (None, t')) \<and>
   (0 \<le> MaxRetries (retryConfig c) \<and>
    (\<forall>i \<le> nat (MaxRetries (retryConfig c)).
       attempt_result E (response_at w url i) (ts i) = (Some (e i), ts (Suc i))) \<longrightarrow>
    fetchWithRetry E c url (ts 0) w =
      (Some (e (nat (MaxRetries (retryConfig c)))), ts (Suc (nat (MaxRetries (retryConfig c)))),
       w\<lparr>requests := requests w @ replicate (Suc (nat (MaxRetries (retryConfig c)))) url\<rparr>)) \<and>
   (int k \<le> MaxRetries (retryConfig c) \<and>
    (\<forall>i<k. attempt_result E (response_at w url i) (ts i) = (Some (e i), ts (Suc i))) \<and>
    attempt_result E (response_at w url k) (ts k) = (None, t') \<longrightarrow>
    fetchWithRetry E c url (ts 0) w =
      (None, t', w\<lparr>requests := requests w @ replicate (Suc k) url\<rparr>))"
proof (intro conjI allI impI)
  fix resp :: Response and t
  assume "StatusCode resp = 429"
  then show "attempt_result E (Inr resp) t =
        (Some (ZapError ''rate_limited'' ''too many requests to registry'' None), t)"
    by (simp add: attempt_result_def)
next
  fix resp :: Response and t
  assume "StatusCode resp \<ge> 400 \<and> StatusCode resp \<noteq> 429"
  then show "attempt_result E (Inr resp) t =
        (Some (ZapError ''http_error''
                 (''HTTP '' @ itoa (StatusCode resp) @ '': '' @ fst (Body resp)) None), t)"
    by (simp add: attempt_result_def)
next
  fix resp :: Response and t err t'
  assume "StatusCode resp < 400 \<and> json_Decode E (Body resp) t = (Some err, t')"
  then show "attempt_result E (Inr resp) t =
        (Some (ZapError ''parse_error'' ''failed to parse registry response'' (Some err)), t')"
    by (simp add: attempt_result_def)
next
  fix resp :: Response and t t'
  assume "StatusCode resp < 400 \<and> json_Decode E (Body resp) t = (None, t')"
  then show "attempt_result E (Inr resp) t = (None, t')"
    by (simp add: attempt_result_def)
next
  assume "0 \<le> MaxRetries (retryConfig c) \<and>
    (\<forall>i \<le> nat (MaxRetries (retryConfig c)).
       attempt_result E (response_at w url i) (ts i) = (Some (e i), ts (Suc i)))"
  then show "fetchWithRetry E c url (ts 0) w =
      (Some (e (nat (MaxRetries (retryConfig c)))), ts (Suc (nat (MaxRetries (retryConfig c)))),
       w\<lparr>requests := requests w @ replicate (Suc (nat (MaxRetries (retryConfig c)))) url\<rparr>)"
    by (intro fetchWithRetry_exhausted) simp_all
next
  assume "int k \<le> MaxRetries (retryConfig c) \<and>
    (\<forall>i<k. attempt_result E (response_at w url i) (ts i) = (Some (e i), ts (Suc i))) \<and>
    attempt_result E (response_at w url k) (ts k) = (None, t')"
  then show "fetchWithRetry E c url (ts 0) w =
      (None, t', w\<lparr>requests := requests w @ replicate (Suc k) url\<rparr>)"
    by (intro fetchWithRetry_succeeds [where e = e]) simp_all
qed (simp add: attempt_result_def)

theorem fetchWithRetry_retries_witness:
  "fetchWithRetry (demo test_docs) demo_client ''http://registry/test-package'' zero_metadata
     (demo_world flaky_server) =
   (None, test_package_metadata,
    (demo_world flaky_server)\<lparr>requests := replicate 3 ''http://registry/test-package''\<rparr>) \<and>
   fetchWithRetry (demo test_docs) demo_client ''http://registry/nonexistent'' zero_metadata
     (demo_world express_server) =
   (Some (ZapError ''http_error'' ''HTTP 404: '' None), zero_metadata,
    (demo_world express_server)\<lparr>requests := replicate 4 ''http://registry/nonexistent''\<rparr>)"
proof -
  let ?E = "demo test_docs"
  let ?url = "''http://registry/test-package''"
  let ?w = "demo_world flaky_server"
  let ?e = "\<lambda>i::nat. ZapError ''http_error'' ''HTTP 503: '' None"
  let ?ts = "\<lambda>i::nat. zero_metadata"
  have budget: "int 2 \<le> MaxRetries (retryConfig demo_client)"
    by (simp add: demo_client_def)
  have fails: "\<forall>i<2. attempt_result ?E (response_at ?w ?url i) (?ts i) = (Some (?e i), ?ts (Suc i))"
    by (simp add: response_at_def demo_world_def flaky_server_def attempt_result_def
        status_response_def itoa_503)
  have third: "attempt_result ?E (response_at ?w ?url 2) (?ts 2) = (None, test_package_metadata)"
    by (simp add: response_at_def demo_world_def flaky_server_def attempt_result_def
        ok_response_def demo_def demo_Decode_def test_docs_def)
  have a: "fetchWithRetry ?E demo_client ?url zero_metadata ?w =
      (None, test_package_metadata, ?w\<lparr>requests := requests ?w @ replicate (Suc 2) ?url\<rparr>)"
    using fetchWithRetry_retries [of ?E demo_client ?w ?url ?ts ?e 2 test_package_metadata]
      budget fails third by blast
  let ?url' = "''http://registry/nonexistent''"
  let ?w' = "demo_world express_server"
  let ?e' = "\<lambda>i::nat. ZapError ''http_error'' ''HTTP 404: '' None"
  have budget': "0 \<le> MaxRetries (retryConfig demo_client)"
    by (simp add: demo_client_def)
  have fails': "\<forall>i \<le> nat (MaxRetries (retryConfig demo_client)).
      attempt_result ?E (response_at ?w' ?url' i) (?ts i) = (Some (?e' i), ?ts (Suc i))"
    by (simp add: response_at_def demo_world_def express_server_def attempt_result_def
        status_response_def itoa_404)
  have b: "fetchWithRetry ?E demo_client ?url' zero_metadata ?w' =
      (Some (?e' (nat (MaxRetries (retryConfig demo_client)))), zero_metadata,
       ?w'\<lparr>requests := requests ?w' @
          replicate (Suc (nat (MaxRetries (retryConfig demo_client)))) ?url'\<rparr>)"
    using fetchWithRetry_retries [of ?E demo_client ?w' ?url' ?ts ?e' 0 zero_metadata]
      budget' fails' by blast
  have three: "Suc 2 = 3" by simp
  have four: "Suc (nat (MaxRetries (retryConfig demo_client))) = 4"
    by (simp add: demo_client_def)
  show ?thesis
    using a b unfolding three four by (simp add: demo_world_def)
qed

text \<open>
  X2. With a negative \<^verbatim>\<open>MaxRetries\<close> the loop of \<^const>\<open>fetchWithRetry\<close> makes no
  pass: no request is made, \<^verbatim>\<open>lastErr\<close> is still \<^verbatim>\<open>nil\<close>, and the call returns
  \<^verbatim>\<open>nil\<close> with the target untouched.
\<close>

theorem fetchWithRetry_negative_budget:
  assumes "MaxRetries (retryConfig c) < 0"
  shows "fetchWithRetry E c url target w = (None, target, w)"
  using assms by (simp add: fetchWithRetry_def fetch_loop.simps)

theorem fetchWithRetry_negative_budget_witness:
  "fetchWithRetry (demo mock_docs)
     (demo_client\<lparr>retryConfig := \<lparr>MaxRetries = - 1, RetryDelay = 0, MaxWaitTime = 0\<rparr>\<rparr>)
     ''http://registry/nonexistent'' zero_metadata (demo_world mock_server) =
   (None, zero_metadata, demo_world mock_server)"
  by (rule fetchWithRetry_negative_budget) simp

section \<open>What a registry call does to the world\<close>

lemma fetch_loop_world:
  "\<exists>n. snd (snd (fetch_loop E c url a lastErr target w)) =
         w\<lparr>requests := requests w @ replicate n url\<rparr>"
proof (induction "nat (MaxRetries (retryConfig c) + 1 - a)" arbitrary: a lastErr target w)
  case 0
  then have "\<not> a \<le> MaxRetries (retryConfig c)" by simp
  then have "snd (snd (fetch_loop E c url a lastErr target w)) =
      w\<lparr>requests := requests w @ replicate 0 url\<rparr>"
    by (subst fetch_loop.simps) simp
  then show ?case by blast
next
  case (Suc m)
  then have le: "a \<le> MaxRetries (retryConfig c)" by simp
  let ?w' = "w\<lparr>requests := requests w @ [url]\<rparr>"
  let ?r = "respond w (length (requests w)) url"
  obtain res target' where ar: "attempt_result E ?r target = (res, target')"
    by (cases "attempt_result E ?r target")
  show ?case
  proof (cases res)
    case None
    with le ar have "snd (snd (fetch_loop E c url a lastErr target w)) =
        w\<lparr>requests := requests w @ replicate 1 url\<rparr>"
      by (subst fetch_loop.simps) (simp add: http_Get_def)
    then show ?thesis by blast
  next
    case (Some err)
    with le ar have unfold: "fetch_loop E c url a lastErr target w =
        fetch_loop E c url (a + 1) (Some err) target' ?w'"
      by (subst fetch_loop.simps) (simp add: http_Get_def)
    from Suc.hyps(2) have "m = nat (MaxRetries (retryConfig c) + 1 - (a + 1))" by simp
    from Suc.hyps(1) [OF this]
    obtain n where "snd (snd (fetch_loop E c url (a + 1) (Some err) target' ?w')) =
        ?w'\<lparr>requests := requests ?w' @ replicate n url\<rparr>"
      by blast
    with unfold have "snd (snd (fetch_loop E c url a lastErr target w)) =
        w\<lparr>requests := requests w @ replicate (Suc n) url\<rparr>"
      by simp
    then show ?thesis by blast
  qed
qed

lemma GetPackageMetadata_world:
  "\<exists>n. snd (GetPackageMetadata E c name w) =
         w\<lparr>requests := requests w @ replicate n (baseURL c @ ''/'' @ name)\<rparr>"
proof -
  let ?url = "baseURL c @ ''/'' @ name"
  obtain err metadata w' where f: "fetchWithRetry E c ?url zero_metadata w = (err, metadata, w')"
    by (cases "fetchWithRetry E c ?url zero_metadata w")
  from fetch_loop_world [of E c ?url 0 None zero_metadata w] f
  obtain n where "w' = w\<lparr>requests := requests w @ replicate n ?url\<rparr>"
    by (auto simp: fetchWithRetry_def)
  with f have "snd (GetPackageMetadata E c name w) = w\<lparr>requests := requests w @ replicate n ?url\<rparr>"
    by (simp add: GetPackageMetadata_def Let_def split: option.splits)
  then show ?thesis by blast
qed

lemma resolveVersion_world:
  "\<exists>n. snd (resolveVersion E c name vc w) =
         w\<lparr>requests := requests w @ replicate n (baseURL c @ ''/'' @ name)\<rparr>"
proof (cases "isExactVersion E vc")
  case True
  then have "snd (resolveVersion E c name vc w) =
      w\<lparr>requests := requests w @ replicate 0 (baseURL c @ ''/'' @ name)\<rparr>"
    by (simp add: resolveVersion_def)
  then show ?thesis by blast
next
  case False
  obtain n where "snd (GetPackageMetadata E c name w) =
      w\<lparr>requests := requests w @ replicate n (baseURL c @ ''/'' @ name)\<rparr>"
    using GetPackageMetadata_world by blast
  moreover from False have "snd (resolveVersion E c name vc w) = snd (GetPackageMetadata E c name w)"
    by (simp add: resolveVersion_def Let_def split: prod.splits sum.splits option.splits)
  ultimately show ?thesis by auto
qed

lemma GetPackageVersion_world:
  "\<exists>n. snd (GetPackageVersion E c name vc w) =
         w\<lparr>requests := requests w @ replicate n (baseURL c @ ''/'' @ name)\<rparr>"
proof -
  let ?url = "baseURL c @ ''/'' @ name"
  obtain r w1 where rv: "resolveVersion E c name vc w = (r, w1)"
    by (cases "resolveVersion E c name vc w")
  from resolveVersion_world [of E c name vc w] rv
  obtain n where w1: "w1 = w\<lparr>requests := requests w @ replicate n ?url\<rparr>" by auto
  show ?thesis
  proof (cases r)
    case (Inl err)
    with rv w1 have "snd (GetPackageVersion E c name vc w) =
        w\<lparr>requests := requests w @ replicate n ?url\<rparr>"
      by (simp add: GetPackageVersion_def)
    then show ?thesis by blast
  next
    case (Inr version)
    obtain m where w2: "snd (GetPackageMetadata E c name w1) =
        w1\<lparr>requests := requests w1 @ replicate m ?url\<rparr>"
      using GetPackageMetadata_world by blast
    from rv Inr have "snd (GetPackageVersion E c name vc w) = snd (GetPackageMetadata E c name w1)"
      by (simp add: GetPackageVersion_def split: prod.splits sum.splits option.splits)
    with w1 w2 have "snd (GetPackageVersion E c name vc w) =
        w\<lparr>requests := requests w @ replicate (n + m) ?url\<rparr>"
      by (simp add: replicate_add)
    then show ?thesis by blast
  qed
qed

section \<open>The cache\<close>

text \<open>
  C4, as amended. With \<open>path\<close> the cache path of \<open>(name, version)\<close>: when no file
  is at \<open>path\<close>, \<^const>\<open>checkCache\<close> reports a plain miss (not found, no error) and
  leaves the world alone. When a file is there and can be read, its contents are digested:
  a digest equal to the expected checksum gives (\<open>path\<close>, found, no error) and leaves the
  world alone; any other digest removes the file and gives not found together with the
  checksum-mismatch error. When a file is there and reading it fails, the call reports a
  plain miss and leaves the file in place.
\<close>

theorem checkCache_outcomes:
  "(files w (filepath_Join E [cacheDir dm, name, version, ''package.tgz'']) = None \<longrightarrow>
      checkCache E dm name version expectedShasum w = (([], False, None), w)) \<and>
   (files w (filepath_Join E [cacheDir dm, name, version, ''package.tgz'']) = Some content \<and>
    read_err w (filepath_Join E [cacheDir dm, name, version, ''package.tgz'']) = None \<and>
    sha1_hex E content = expectedShasum \<longrightarrow>
      checkCache E dm name version expectedShasum w =
        ((filepath_Join E [cacheDir dm, name, version, ''package.tgz''], True, None), w)) \<and>
   (files w (filepath_Join E [cacheDir dm, name, version, ''package.tgz'']) = Some content \<and>
    read_err w (filepath_Join E [cacheDir dm, name, version, ''package.tgz'']) = None \<and>
    sha1_hex E content \<noteq> expectedShasum \<longrightarrow>
      checkCache E dm name version expectedShasum w =
        (([], False,
          Some (Errorf (''checksum mismatch in cached file (expected: '' @ expectedShasum @
                  '', got: '' @ sha1_hex E content @ '')'') [])),
         w\<lparr>files := (files w)(filepath_Join E [cacheDir dm, name, version, ''package.tgz''] := None)\<rparr>)) \<and>
   (files w (filepath_Join E [cacheDir dm, name, version, ''package.tgz'']) = Some content \<and>
    read_err w (filepath_Join E [cacheDir dm, name, version, ''package.tgz'']) = Some err \<longrightarrow>
      checkCache E dm name version expectedShasum w = (([], False, None), w))"
  by (simp add: checkCache_def os_Stat_def os_ReadFile_def os_Remove_def Let_def)

text \<open>
  The claim as written fails where the file exists and cannot be read: with contents whose
  digest is the expected one the call still answers not found, and with contents whose
  digest differs it answers not found with no error and leaves the file.
\<close>

theorem checkCache_unreadable_counterexample:
  "files unreadable_world cached_path = Some ''express-4.17.1-content'' \<and>
   sha1_hex (demo mock_docs) ''express-4.17.1-content'' = ''sha1:express-4.17.1-content'' \<and>
   fst (checkCache (demo mock_docs) demo_manager ''express'' ''4.17.1''
          ''sha1:express-4.17.1-content'' unreadable_world) = ([], False, None) \<and>
   fst (checkCache (demo mock_docs) demo_manager ''express'' ''4.17.1''
          ''sha1:something-else'' unreadable_world) = ([], False, None) \<and>
   files (snd (checkCache (demo mock_docs) demo_manager ''express'' ''4.17.1''
          ''sha1:something-else'' unreadable_world)) cached_path =
     Some ''express-4.17.1-content''"
  by code_simp

theorem checkCache_outcomes_witness:
  "checkCache (demo mock_docs) demo_manager ''express'' ''4.17.1''
       ''sha1:express-4.17.1-content'' (demo_world mock_server) =
     (([], False, None), demo_world mock_server) \<and>
   checkCache (demo mock_docs) demo_manager ''express'' ''4.17.1''
       ''sha1:express-4.17.1-content'' (cached_world ''express-4.17.1-content'') =
     ((cached_path, True, None), cached_world ''express-4.17.1-content'') \<and>
   checkCache (demo mock_docs) demo_manager ''express'' ''4.17.1''
       ''sha1:express-4.17.1-content'' (cached_world ''tampered'') =
     (([], False,
       Some (Errorf ''checksum mismatch in cached file (expected: sha1:express-4.17.1-content, got: sha1:tampered)'' [])),
      (cached_world ''tampered'')\<lparr>files := (files (cached_world ''tampered''))(cached_path := None)\<rparr>) \<and>
   checkCache (demo mock_docs) demo_manager ''express'' ''4.17.1''
       ''sha1:express-4.17.1-content'' unreadable_world =
     (([], False, None), unreadable_world)"
proof -
  let ?E = "demo mock_docs"
  have p: "filepath_Join ?E [cacheDir demo_manager, ''express'', ''4.17.1'', ''package.tgz''] = cached_path"
    by code_simp
  have d1: "sha1_hex ?E ''express-4.17.1-content'' = ''sha1:express-4.17.1-content''"
    by code_simp
  have d2: "sha1_hex ?E ''tampered'' = ''sha1:tampered''" by code_simp
  have d3: "sha1_hex ?E ''tampered'' \<noteq> ''sha1:express-4.17.1-content''" by code_simp
  have f0: "files (demo_world mock_server) cached_path = None"
    by (simp add: demo_world_def)
  have f1: "files (cached_world c) cached_path = Some c" "read_err (cached_world c) cached_path = None" for c
    by (simp_all add: cached_world_def demo_world_def)
  have f2: "files unreadable_world cached_path = Some ''express-4.17.1-content''"
    "read_err unreadable_world cached_path = Some (LibError ''permission denied'')"
    by (simp_all add: unreadable_world_def)
  note o = checkCache_outcomes [where E = ?E and dm = demo_manager and name = "''express''"
      and version = "''4.17.1''" and expectedShasum = "''sha1:express-4.17.1-content''",
      unfolded p]
  from o [where w = "demo_world mock_server"] f0
  have a: "checkCache ?E demo_manager ''express'' ''4.17.1'' ''sha1:express-4.17.1-content''
      (demo_world mock_server) = (([], False, None), demo_world mock_server)" by blast
  from o [where w = "cached_world ''express-4.17.1-content''"
      and content = "''express-4.17.1-content''"] f1 d1
  have b: "checkCache ?E demo_manager ''express'' ''4.17.1'' ''sha1:express-4.17.1-content''
      (cached_world ''express-4.17.1-content'') =
      ((cached_path, True, None), cached_world ''express-4.17.1-content'')" by blast
  from o [where w = "cached_world ''tampered''" and content = "''tampered''"] f1 d3
  have c: "checkCache ?E demo_manager ''express'' ''4.17.1'' ''sha1:express-4.17.1-content''
      (cached_world ''tampered'') =
      (([], False,
        Some (Errorf (''checksum mismatch in cached file (expected: '' @
                ''sha1:express-4.17.1-content'' @ '', got: '' @ sha1_hex ?E ''tampered'' @ '')'') [])),
       (cached_world ''tampered'')\<lparr>files := (files (cached_world ''tampered''))(cached_path := None)\<rparr>)"
    by blast
  from o [where w = unreadable_world and content = "''express-4.17.1-content''"
      and err = "LibError ''permission denied''"] f2
  have d: "checkCache ?E demo_manager ''express'' ''4.17.1'' ''sha1:express-4.17.1-content''
      unreadable_world = (([], False, None), unreadable_world)" by blast
  from a b c d show ?thesis by (simp add: d2)
qed

section \<open>The transfer\<close>

text \<open>
  C2. \<^const>\<open>downloadFile\<close> creates (or truncates) the target file before it sends the
  request. When the request cannot be built, the transport fails or the status is not
  200, it returns its error without removing that file: an empty file stays at the target
  path, and its digest is not the expected one unless the expected one is the digest of
  the empty string. The paths for an interrupted copy and for a digest mismatch do remove
  the file.
\<close>

theorem downloadFile_leaves_empty_file:
  assumes "mkdir_err w (filepath_Dir E targetPath) = None"
    and "create_err w targetPath = None"
    and "http_NewRequest E url \<noteq> None \<or>
         (\<exists>err. respond w (length (requests w)) url = Inl err) \<or>
         (\<exists>resp. respond w (length (requests w)) url = Inr resp \<and> StatusCode resp \<noteq> 200)"
    and "sha1_hex E [] \<noteq> expectedShasum"
  shows "fst (downloadFile E dm url targetPath expectedShasum showProgress w) \<noteq> None \<and>
         (\<exists>content.
            files (snd (downloadFile E dm url targetPath expectedShasum showProgress w)) targetPath =
              Some content \<and>
            sha1_hex E content \<noteq> expectedShasum)"
  using assms
  by (auto simp: downloadFile_def os_MkdirAll_def os_Create_def client_Do_def http_Get_def
      split: option.splits sum.splits)

theorem downloadFile_leaves_empty_file_witness:
  "fst (downloadFile (demo mock_docs) demo_manager ''http://registry/express/-/express-4.17.2.tgz''
          ''cache/express/4.17.2/package.tgz'' ''sha1:express-4.17.2-content'' True
          (demo_world mock_server)) =
     Some (Errorf ''failed to download file (status 404): 404 Not Found'' []) \<and>
   files (snd (downloadFile (demo mock_docs) demo_manager
          ''http://registry/express/-/express-4.17.2.tgz''
          ''cache/express/4.17.2/package.tgz'' ''sha1:express-4.17.2-content'' True
          (demo_world mock_server))) ''cache/express/4.17.2/package.tgz'' = Some [] \<and>
   sha1_hex (demo mock_docs) [] \<noteq> ''sha1:express-4.17.2-content''"
proof -
  let ?E = "demo mock_docs"
  let ?w = "demo_world mock_server"
  let ?url = "''http://registry/express/-/express-4.17.2.tgz''"
  let ?p = "''cache/express/4.17.2/package.tgz''"
  have h1: "mkdir_err ?w (filepath_Dir ?E ?p) = None" by (simp add: demo_world_def)
  have h2: "create_err ?w ?p = None" by (simp add: demo_world_def)
  have "respond ?w (length (requests ?w)) ?url = Inr (status_response 404 ''404 Not Found'') \<and>
      StatusCode (status_response 404 ''404 Not Found'') \<noteq> 200"
    by code_simp
  then have h3: "http_NewRequest ?E ?url \<noteq> None \<or>
         (\<exists>err. respond ?w (length (requests ?w)) ?url = Inl err) \<or>
         (\<exists>resp. respond ?w (length (requests ?w)) ?url = Inr resp \<and> StatusCode resp \<noteq> 200)"
    by blast
  have h4: "sha1_hex ?E [] \<noteq> ''sha1:express-4.17.2-content''" by code_simp
  note t = downloadFile_leaves_empty_file [OF h1 h2 h3 h4, of demo_manager True]
  have e: "fst (downloadFile ?E demo_manager ?url ?p ''sha1:express-4.17.2-content'' True ?w) =
      Some (Errorf ''failed to download file (status 404): 404 Not Found'' [])"
    by code_simp
  have f: "files (snd (downloadFile ?E demo_manager ?url ?p ''sha1:express-4.17.2-content'' True ?w)) ?p =
      Some []"
    by code_simp
  from t e f h4 show ?thesis by simp
qed

text \<open>
  X1. When the archive request is answered with status 200, \<^const>\<open>downloadFile\<close> ends in
  one of three ways: the body arrives whole and its digest is the expected one, and the
  call succeeds with the body at the target path; the body arrives whole with another
  digest, and the call fails with the checksum-mismatch error and no file at the target
  path; the copy breaks off, and the call fails with the interruption error and no file at
  the target path.
\<close>

theorem downloadFile_transfer_outcomes:
  assumes "mkdir_err w (filepath_Dir E targetPath) = None"
    and "create_err w targetPath = None"
    and "http_NewRequest E url = None"
    and "respond w (length (requests w)) url = Inr resp"
    and "StatusCode resp = 200"
  shows "(snd (Body resp) = None \<and> sha1_hex E (fst (Body resp)) = expectedShasum \<longrightarrow>
            fst (downloadFile E dm url targetPath expectedShasum showProgress w) = None \<and>
            files (snd (downloadFile E dm url targetPath expectedShasum showProgress w)) targetPath =
              Some (fst (Body resp))) \<and>
         (snd (Body resp) = None \<and> sha1_hex E (fst (Body resp)) \<noteq> expectedShasum \<longrightarrow>
            fst (downloadFile E dm url targetPath expectedShasum showProgress w) =
              Some (Errorf (''checksum mismatch (expected: '' @ expectedShasum @ '', got: '' @
                      sha1_hex E (fst (Body resp)) @ '')'') []) \<and>
            files (snd (downloadFile E dm url targetPath expectedShasum showProgress w)) targetPath =
              None) \<and>
         (\<forall>err. snd (Body resp) = Some err \<longrightarrow>
            fst (downloadFile E dm url targetPath expectedShasum showProgress w) =
              Some (Errorf ''download interrupted: %w'' [err]) \<and>
            files (snd (downloadFile E dm url targetPath expectedShasum showProgress w)) targetPath =
              None)"
  using assms
  by (simp add: downloadFile_def os_MkdirAll_def os_Create_def client_Do_def http_Get_def
      io_Copy_def os_Remove_def Let_def)

theorem downloadFile_transfer_outcomes_witness:
  "fst (downloadFile (demo mock_docs) demo_manager ''http://registry/express/-/express-4.17.1.tgz''
          cached_path ''sha1:express-4.17.1-content'' True (demo_world mock_server)) = None \<and>
   files (snd (downloadFile (demo mock_docs) demo_manager
          ''http://registry/express/-/express-4.17.1.tgz''
          cached_path ''sha1:express-4.17.1-content'' True (demo_world mock_server))) cached_path =
     Some ''express-4.17.1-content'' \<and>
   fst (downloadFile (demo mock_docs) demo_manager ''http://registry/express/-/express-4.17.1.tgz''
          cached_path ''sha1:other'' True (demo_world mock_server)) =
     Some (Errorf ''checksum mismatch (expected: sha1:other, got: sha1:express-4.17.1-content)'' []) \<and>
   files (snd (downloadFile (demo mock_docs) demo_manager
          ''http://registry/express/-/express-4.17.1.tgz''
          cached_path ''sha1:other'' True (demo_world mock_server))) cached_path = None \<and>
   fst (downloadFile (demo mock_docs) demo_manager ''http://registry/express/-/express-4.17.1.tgz''
          cached_path ''sha1:express-4.17.1-content'' True (demo_world truncated_server)) =
     Some (Errorf ''download interrupted: %w'' [LibError ''unexpected EOF'']) \<and>
   files (snd (downloadFile (demo mock_docs) demo_manager
          ''http://registry/express/-/express-4.17.1.tgz''
          cached_path ''sha1:express-4.17.1-content'' True (demo_world truncated_server)))
       cached_path = None"
proof -
  let ?E = "demo mock_docs"
  let ?url = "''http://registry/express/-/express-4.17.1.tgz''"
  have h1: "mkdir_err (demo_world srv) (filepath_Dir ?E cached_path) = None" for srv
    by (simp add: demo_world_def)
  have h2: "create_err (demo_world srv) cached_path = None" for srv
    by (simp add: demo_world_def)
  have h3: "http_NewRequest ?E ?url = None" by code_simp
  have h4: "respond (demo_world mock_server) (length (requests (demo_world mock_server))) ?url =
      Inr (ok_response ''express-4.17.1-content'')"
    by code_simp
  have h5: "StatusCode (ok_response ''express-4.17.1-content'') = 200"
    by (simp add: ok_response_def)
  let ?t = "\<lparr>StatusCode = 200, Status = ''200 OK'', ContentLength = 22,
          Body = (''express-4.1'', Some (LibError ''unexpected EOF''))\<rparr>"
  have h4': "respond (demo_world truncated_server)
      (length (requests (demo_world truncated_server))) ?url = Inr ?t"
    by (simp add: demo_world_def truncated_server_def)
  have h5': "StatusCode ?t = 200" by simp
  have b: "Body (ok_response ''express-4.17.1-content'') = (''express-4.17.1-content'', None)"
    by (simp add: ok_response_def)
  have d: "sha1_hex ?E ''express-4.17.1-content'' = ''sha1:express-4.17.1-content''"
    by code_simp
  note ok = downloadFile_transfer_outcomes [OF h1 h2 h3 h4 h5, of _ demo_manager True]
  note bad = downloadFile_transfer_outcomes [OF h1 h2 h3 h4' h5',
      of "''sha1:express-4.17.1-content''" demo_manager True]
  from ok [of "''sha1:express-4.17.1-content''"] ok [of "''sha1:other''"] bad
  show ?thesis by (simp add: b d)
qed

section \<open>Downloading one package\<close>

lemma downloadFile_success:
  assumes "downloadFile E dm url tp expected sp w = (None, w')"
  shows "\<exists>content. files w' tp = Some content \<and> sha1_hex E content = expected"
  using assms
  by (auto simp: downloadFile_def os_MkdirAll_def os_Create_def client_Do_def http_Get_def
      io_Copy_def os_Remove_def Let_def
      split: option.splits sum.splits prod.splits if_splits)

lemma checkCache_found:
  assumes "files w (filepath_Join E [cacheDir dm, name, version, ''package.tgz'']) = Some content"
    and "read_err w (filepath_Join E [cacheDir dm, name, version, ''package.tgz'']) = None"
    and "sha1_hex E content = expected"
  shows "checkCache E dm name version expected w =
         ((filepath_Join E [cacheDir dm, name, version, ''package.tgz''], True, None), w)"
  using assms by (simp add: checkCache_def os_Stat_def os_ReadFile_def Let_def)

lemma checkCache_foundD:
  assumes "checkCache E dm name version expected w = ((p, True, err), w')"
  shows "w' = w \<and> err = None \<and> p = filepath_Join E [cacheDir dm, name, version, ''package.tgz''] \<and>
         (\<exists>content. files w p = Some content \<and> sha1_hex E content = expected)"
  using assms
  by (auto simp: checkCache_def os_Stat_def os_ReadFile_def Let_def
      split: option.splits sum.splits if_splits)

lemma checkCache_missD:
  assumes "checkCache E dm name version expected w = ((p, False, None), w')"
  shows "w' = w"
  using assms
  by (auto simp: checkCache_def os_Stat_def os_ReadFile_def Let_def
      split: option.splits sum.splits if_splits)

lemma DownloadPackage_fetch:
  assumes "downloadFile E dm (Tarball (dist vi))
             (filepath_Join E [filepath_Join E [cacheDir dm, name, version], ''package.tgz''])
             (Shasum (dist vi)) sp w = (None, w')"
    and "filepath_Join E [filepath_Join E [cacheDir dm, name, version], ''package.tgz''] =
         filepath_Join E [cacheDir dm, name, version, ''package.tgz'']"
  shows "\<exists>content. files w' (filepath_Join E [cacheDir dm, name, version, ''package.tgz'']) = Some content \<and>
           sha1_hex E content = Shasum (dist vi)"
  using downloadFile_success [OF assms(1)] assms(2) by simp

lemma DownloadPackage_success:
  assumes dl: "DownloadPackage E dm name version opts w = (Inr r, w')"
    and join: "filepath_Join E [filepath_Join E [cacheDir dm, name, version], ''package.tgz''] =
               filepath_Join E [cacheDir dm, name, version, ''package.tgz'']"
  shows "\<exists>(vi::VersionInfo) content.
           r = \<lparr>PackageName = name, ResultVersion = version,
                Path = filepath_Join E [cacheDir dm, name, version, ''package.tgz''],
                ResultShasum = Shasum (dist vi), Error = None\<rparr> \<and>
           files w' (filepath_Join E [cacheDir dm, name, version, ''package.tgz'']) = Some content \<and>
           sha1_hex E content = Shasum (dist vi)"
proof -
  let ?path = "filepath_Join E [cacheDir dm, name, version, ''package.tgz'']"
  let ?tp = "filepath_Join E [filepath_Join E [cacheDir dm, name, version], ''package.tgz'']"
  obtain g w1 where g: "GetPackageVersion E (registry dm) name version w = (g, w1)"
    by (cases "GetPackageVersion E (registry dm) name version w")
  with dl obtain vi where vi: "g = Inr vi"
    by (cases g) (simp_all add: DownloadPackage_def)
  let ?res = "\<lparr>PackageName = name, ResultVersion = version, Path = ?path,
                ResultShasum = Shasum (dist vi), Error = None\<rparr>"
  have fetch: ?thesis
    if "(case downloadFile E dm (Tarball (dist vi)) ?tp (Shasum (dist vi)) (ShowProgress opts) w2 of
          (Some err, w3) \<Rightarrow> (Inl err, w3)
        | (None, w3) \<Rightarrow>
            (Inr \<lparr>PackageName = name, ResultVersion = version, Path = ?tp,
                  ResultShasum = Shasum (dist vi), Error = None\<rparr>, w3)) = (Inr r, w')" for w2
  proof -
    obtain e w3 where d: "downloadFile E dm (Tarball (dist vi)) ?tp (Shasum (dist vi))
        (ShowProgress opts) w2 = (e, w3)"
      by (cases "downloadFile E dm (Tarball (dist vi)) ?tp (Shasum (dist vi)) (ShowProgress opts) w2")
    with that have e: "e = None" and w3: "w3 = w'" and r: "r = ?res"
      by (auto simp: join split: option.splits)
    from DownloadPackage_fetch [OF d [unfolded e] join] w3
    obtain content where "files w' ?path = Some content" "sha1_hex E content = Shasum (dist vi)"
      by auto
    with r show ?thesis
      by - (rule exI [of _ vi], rule exI [of _ content], simp)
  qed
  show ?thesis
  proof (cases "UseCache opts")
    case False
    with dl g vi have "(case downloadFile E dm (Tarball (dist vi)) ?tp (Shasum (dist vi)) (ShowProgress opts) w1 of
          (Some err, w3) \<Rightarrow> (Inl err, w3)
        | (None, w3) \<Rightarrow>
            (Inr \<lparr>PackageName = name, ResultVersion = version, Path = ?tp,
                  ResultShasum = Shasum (dist vi), Error = None\<rparr>, w3)) = (Inr r, w')"
      by (simp add: DownloadPackage_def Let_def)
    then show ?thesis by (rule fetch)
  next
    case True
    obtain p ex err w2 where c: "checkCache E dm name version (Shasum (dist vi)) w1 = ((p, ex, err), w2)"
      by (cases "checkCache E dm name version (Shasum (dist vi)) w1") auto
    show ?thesis
    proof (cases ex)
      case True
      from c True
      have "checkCache E dm name version (Shasum (dist vi)) w1 = ((p, True, err), w2)" by simp
      from checkCache_foundD [OF this]
      obtain content where "w2 = w1" "err = None" "p = ?path" "files w1 ?path = Some content"
        "sha1_hex E content = Shasum (dist vi)" by auto
      moreover from dl g vi \<open>UseCache opts\<close> c True \<open>err = None\<close>
      have "r = ?res" "w' = w1"
        using \<open>w2 = w1\<close> \<open>p = ?path\<close> by (auto simp: DownloadPackage_def Let_def)
      ultimately show ?thesis
        by - (rule exI [of _ vi], rule exI [of _ content], simp)
    next
      case False
      with dl g vi \<open>UseCache opts\<close> c have none: "err = None"
        by (cases err) (simp_all add: DownloadPackage_def Let_def)
      with dl g vi \<open>UseCache opts\<close> c False have "(case downloadFile E dm (Tarball (dist vi)) ?tp (Shasum (dist vi)) (ShowProgress opts) w2 of
          (Some err, w3) \<Rightarrow> (Inl err, w3)
        | (None, w3) \<Rightarrow>
            (Inr \<lparr>PackageName = name, ResultVersion = version, Path = ?tp,
                  ResultShasum = Shasum (dist vi), Error = None\<rparr>, w3)) = (Inr r, w')"
        by (simp add: DownloadPackage_def Let_def)
      then show ?thesis by (rule fetch)
    qed
  qed
qed

lemma DownloadPackage_Error_None:
  assumes "DownloadPackage E dm name version opts w = (Inr r, w')"
  shows "Error r = None \<and> PackageName r = name \<and> ResultVersion r = version"
  using assms
  by (auto simp: DownloadPackage_def Let_def
      split: prod.splits sum.splits option.splits if_splits)

lemma GetPackageVersion_frame:
  assumes "GetPackageVersion E c name vc w = (r, w1)"
  shows "\<exists>n. w1 = w\<lparr>requests := requests w @ replicate n (baseURL c @ ''/'' @ name)\<rparr>"
  using GetPackageVersion_world [of E c name vc w] assms by simp

lemma DownloadPackage_cached:
  assumes uc: "UseCache opts"
    and gpv: "GetPackageVersion E (registry dm) name version w = (Inr vi, w1)"
    and fl: "files w (filepath_Join E [cacheDir dm, name, version, ''package.tgz'']) = Some content"
    and rd: "read_err w (filepath_Join E [cacheDir dm, name, version, ''package.tgz'']) = None"
    and sum: "sha1_hex E content = Shasum (dist vi)"
  shows "DownloadPackage E dm name version opts w =
           (Inr \<lparr>PackageName = name, ResultVersion = version,
                 Path = filepath_Join E [cacheDir dm, name, version, ''package.tgz''],
                 ResultShasum = Shasum (dist vi), Error = None\<rparr>, w1) \<and>
         (\<exists>n. w1 = w\<lparr>requests := requests w @
                    replicate n (baseURL (registry dm) @ ''/'' @ name)\<rparr>)"
proof -
  let ?path = "filepath_Join E [cacheDir dm, name, version, ''package.tgz'']"
  from GetPackageVersion_frame [OF gpv]
  obtain n where w1: "w1 = w\<lparr>requests := requests w @
      replicate n (baseURL (registry dm) @ ''/'' @ name)\<rparr>" by blast
  with fl rd have "files w1 ?path = Some content" "read_err w1 ?path = None" by simp_all
  from checkCache_found [OF this sum]
  have "checkCache E dm name version (Shasum (dist vi)) w1 = ((?path, True, None), w1)" .
  with uc gpv have "DownloadPackage E dm name version opts w =
           (Inr \<lparr>PackageName = name, ResultVersion = version, Path = ?path,
                 ResultShasum = Shasum (dist vi), Error = None\<rparr>, w1)"
    by (simp add: DownloadPackage_def Let_def)
  with w1 show ?thesis by blast
qed

lemma DownloadPackage_again:
  assumes uc: "UseCache opts"
    and join: "filepath_Join E [filepath_Join E [cacheDir dm, name, version], ''package.tgz''] =
               filepath_Join E [cacheDir dm, name, version, ''package.tgz'']"
    and first: "DownloadPackage E dm name version opts w = (Inr r1, wa)"
    and gpv: "GetPackageVersion E (registry dm) name version wa = (Inr vi2, wb)"
    and same: "Shasum (dist vi2) = ResultShasum r1"
    and rd: "read_err wa (Path r1) = None"
  shows "DownloadPackage E dm name version opts wa = (Inr r1, wb) \<and>
         (\<exists>n. wb = wa\<lparr>requests := requests wa @
                    replicate n (baseURL (registry dm) @ ''/'' @ name)\<rparr>)"
proof -
  let ?path = "filepath_Join E [cacheDir dm, name, version, ''package.tgz'']"
  from DownloadPackage_success [OF first join]
  obtain vi :: VersionInfo and content where
    r1: "r1 = \<lparr>PackageName = name, ResultVersion = version, Path = ?path,
               ResultShasum = Shasum (dist vi), Error = None\<rparr>"
    and fl: "files wa ?path = Some content"
    and sum: "sha1_hex E content = Shasum (dist vi)"
    by blast
  from rd r1 have rd': "read_err wa ?path = None" by simp
  from same r1 sum have sum': "sha1_hex E content = Shasum (dist vi2)" by simp
  from DownloadPackage_cached [OF uc gpv fl rd' sum'] same r1
  show ?thesis by simp
qed

lemma downloadFile_success_requests:
  assumes "downloadFile E dm url tp expected sp w = (None, w')"
  shows "requests w' = requests w @ [url]"
  using assms
  by (auto simp: downloadFile_def os_MkdirAll_def os_Create_def client_Do_def http_Get_def
      io_Copy_def os_Remove_def Let_def
      split: option.splits sum.splits prod.splits if_splits)

lemma checkCache_absent:
  assumes "files w (filepath_Join E [cacheDir dm, name, version, ''package.tgz'']) = None"
  shows "checkCache E dm name version expected w = (([], False, None), w)"
  using assms by (simp add: checkCache_def os_Stat_def Let_def)

lemma DownloadPackage_first_transfer:
  assumes first: "DownloadPackage E dm name version opts w = (Inr r1, wa)"
    and absent: "files w (filepath_Join E [cacheDir dm, name, version, ''package.tgz'']) = None"
  shows "\<exists>(vi::VersionInfo) w1 n.
           GetPackageVersion E (registry dm) name version w = (Inr vi, w1) \<and>
           requests wa = requests w @ replicate n (baseURL (registry dm) @ ''/'' @ name) @
             [Tarball (dist vi)]"
proof -
  let ?path = "filepath_Join E [cacheDir dm, name, version, ''package.tgz'']"
  let ?tp = "filepath_Join E [filepath_Join E [cacheDir dm, name, version], ''package.tgz'']"
  obtain g w1 where g: "GetPackageVersion E (registry dm) name version w = (g, w1)"
    by (cases "GetPackageVersion E (registry dm) name version w")
  with first obtain vi where vi: "g = Inr vi"
    by (cases g) (simp_all add: DownloadPackage_def)
  from GetPackageVersion_frame [OF g]
  obtain n where w1: "w1 = w\<lparr>requests := requests w @
      replicate n (baseURL (registry dm) @ ''/'' @ name)\<rparr>" by blast
  with absent have "files w1 ?path = None" by simp
  then have miss: "checkCache E dm name version (Shasum (dist vi)) w1 = (([], False, None), w1)"
    by (rule checkCache_absent)
  obtain e w3 where d: "downloadFile E dm (Tarball (dist vi)) ?tp (Shasum (dist vi))
      (ShowProgress opts) w1 = (e, w3)"
    by (cases "downloadFile E dm (Tarball (dist vi)) ?tp (Shasum (dist vi)) (ShowProgress opts) w1")
  from first g vi miss d have "e = None \<and> w3 = wa"
    by (cases "UseCache opts"; cases e) (simp_all add: DownloadPackage_def Let_def)
  with d have "downloadFile E dm (Tarball (dist vi)) ?tp (Shasum (dist vi))
      (ShowProgress opts) w1 = (None, wa)" by simp
  from downloadFile_success_requests [OF this] w1
  have "requests wa = requests w @ replicate n (baseURL (registry dm) @ ''/'' @ name) @
      [Tarball (dist vi)]" by simp
  with g vi show ?thesis by blast
qed

text \<open>
  C8, as amended. First conjunct: with \<open>useCache\<close> set, when the registry lookup of
  \<^verbatim>\<open>DownloadPackage\<close> succeeds and the cache path holds a readable file whose digest
  is the checksum the registry advertises, the call returns that path and checksum, and
  the world it leaves is the world the registry lookup left: the only requests made are
  those for the package metadata, no archive is requested and no file is touched. Second
  conjunct: after a successful call with \<open>useCache\<close> set, a second call for which the
  registry advertises the same checksum (the file being readable) returns the result of
  the first, again with no request but those for the metadata and with no file touched.
  Third conjunct: a successful call that found no file at the cache path made, after the
  metadata requests, exactly one request, the one for the archive; with the second
  conjunct, two calls in succession make one archive request. The hypothesis on \<^verbatim>\<open>filepath.Join\<close> says that joining the directory with the file
  name gives the path \<^const>\<open>checkCache\<close> computes.
\<close>

theorem DownloadPackage_cache_hit:
  "(UseCache opts \<and>
    GetPackageVersion E (registry dm) name version w = (Inr vi, w1) \<and>
    files w (filepath_Join E [cacheDir dm, name, version, ''package.tgz'']) = Some content \<and>
    read_err w (filepath_Join E [cacheDir dm, name, version, ''package.tgz'']) = None \<and>
    sha1_hex E content = Shasum (dist vi) \<longrightarrow>
    DownloadPackage E dm name version opts w =
      (Inr \<lparr>PackageName = name, ResultVersion = version,
            Path = filepath_Join E [cacheDir dm, name, version, ''package.tgz''],
            ResultShasum = Shasum (dist vi), Error = None\<rparr>, w1) \<and>
    (\<exists>n. w1 = w\<lparr>requests := requests w @
               replicate n (baseURL (registry dm) @ ''/'' @ name)\<rparr>)) \<and>
   (UseCache opts \<and>
    filepath_Join E [filepath_Join E [cacheDir dm, name, version], ''package.tgz''] =
      filepath_Join E [cacheDir dm, name, version, ''package.tgz''] \<and>
    DownloadPackage E dm name version opts w = (Inr r1, wa) \<and>
    GetPackageVersion E (registry dm) name version wa = (Inr vi2, wb) \<and>
    Shasum (dist vi2) = ResultShasum r1 \<and>
    read_err wa (Path r1) = None \<longrightarrow>
    DownloadPackage E dm name version opts wa = (Inr r1, wb) \<and>
    (\<exists>n. wb = wa\<lparr>requests := requests wa @
               replicate n (baseURL (registry dm) @ ''/'' @ name)\<rparr>)) \<and>
   (DownloadPackage E dm name version opts w = (Inr r1, wa) \<and>
    files w (filepath_Join E [cacheDir dm, name, version, ''package.tgz'']) = None \<longrightarrow>
    (\<exists>(vi0::VersionInfo) w0 n.
       GetPackageVersion E (registry dm) name version w = (Inr vi0, w0) \<and>
       requests wa = requests w @ replicate n (baseURL (registry dm) @ ''/'' @ name) @
         [Tarball (dist vi0)]))"
  using DownloadPackage_cached [of opts E dm name version w vi w1 content]
    DownloadPackage_again [of opts E dm name version w r1 wa vi2 wb]
    DownloadPackage_first_transfer [of E dm name version opts w r1 wa]
  by blast

text \<open>
  The claim as written fails: a cache hit is preceded by the registry lookup, which goes
  to the network.
\<close>

theorem DownloadPackage_cache_hit_counterexample:
  "files (cached_world ''express-4.17.1-content'') cached_path = Some ''express-4.17.1-content'' \<and>
   requests (cached_world ''express-4.17.1-content'') = [] \<and>
   fst (DownloadPackage (demo mock_docs) demo_manager ''express'' ''4.17.1'' demo_options
          (cached_world ''express-4.17.1-content'')) =
     Inr \<lparr>PackageName = ''express'', ResultVersion = ''4.17.1'', Path = cached_path,
           ResultShasum = ''sha1:express-4.17.1-content'', Error = None\<rparr> \<and>
   requests (snd (DownloadPackage (demo mock_docs) demo_manager ''express'' ''4.17.1''
          demo_options (cached_world ''express-4.17.1-content''))) = [''http://registry/express'']"
  by code_simp

theorem DownloadPackage_cache_hit_witness:
  "fst (DownloadPackage (demo mock_docs) demo_manager ''express'' ''4.17.1'' demo_options
          (demo_world mock_server)) =
     Inr \<lparr>PackageName = ''express'', ResultVersion = ''4.17.1'', Path = cached_path,
           ResultShasum = ''sha1:express-4.17.1-content'', Error = None\<rparr> \<and>
   requests (snd (DownloadPackage (demo mock_docs) demo_manager ''express'' ''4.17.1''
          demo_options (demo_world mock_server))) =
     [''http://registry/express'', ''http://registry/express/-/express-4.17.1.tgz''] \<and>
   DownloadPackage (demo mock_docs) demo_manager ''express'' ''4.17.1'' demo_options
     (snd (DownloadPackage (demo mock_docs) demo_manager ''express'' ''4.17.1'' demo_options
        (demo_world mock_server))) =
     (Inr \<lparr>PackageName = ''express'', ResultVersion = ''4.17.1'', Path = cached_path,
           ResultShasum = ''sha1:express-4.17.1-content'', Error = None\<rparr>,
      snd (GetPackageVersion (demo mock_docs) demo_client ''express'' ''4.17.1''
        (snd (DownloadPackage (demo mock_docs) demo_manager ''express'' ''4.17.1'' demo_options
           (demo_world mock_server))))) \<and>
   requests (snd (GetPackageVersion (demo mock_docs) demo_client ''express'' ''4.17.1''
        (snd (DownloadPackage (demo mock_docs) demo_manager ''express'' ''4.17.1'' demo_options
           (demo_world mock_server))))) =
     [''http://registry/express'', ''http://registry/express/-/express-4.17.1.tgz'',
      ''http://registry/express'']"
proof -
  let ?E = "demo mock_docs"
  let ?r1 = "\<lparr>PackageName = ''express'', ResultVersion = ''4.17.1'', Path = cached_path,
      ResultShasum = ''sha1:express-4.17.1-content'', Error = None\<rparr>"
  let ?w = "demo_world mock_server"
  let ?wa = "snd (DownloadPackage ?E demo_manager ''express'' ''4.17.1'' demo_options ?w)"
  let ?wb = "snd (GetPackageVersion ?E demo_client ''express'' ''4.17.1'' ?wa)"
  have uc: "UseCache demo_options" by (simp add: demo_options_def)
  have join: "filepath_Join ?E [filepath_Join ?E [cacheDir demo_manager, ''express'', ''4.17.1''],
        ''package.tgz''] =
      filepath_Join ?E [cacheDir demo_manager, ''express'', ''4.17.1'', ''package.tgz'']"
    by code_simp
  have r: "fst (DownloadPackage ?E demo_manager ''express'' ''4.17.1'' demo_options ?w) = Inr ?r1"
    by code_simp
  then have first: "DownloadPackage ?E demo_manager ''express'' ''4.17.1'' demo_options ?w =
      (Inr ?r1, ?wa)"
    by (simp add: prod_eq_iff)
  have "fst (GetPackageVersion ?E (registry demo_manager) ''express'' ''4.17.1'' ?wa) =
      Inr (express_info ''4.17.1'')"
    by code_simp
  then have gpv: "GetPackageVersion ?E (registry demo_manager) ''express'' ''4.17.1'' ?wa =
      (Inr (express_info ''4.17.1''), snd (GetPackageVersion ?E (registry demo_manager)
         ''express'' ''4.17.1'' ?wa))"
    by (simp add: prod_eq_iff)
  have same: "Shasum (dist (express_info ''4.17.1'')) = ResultShasum ?r1"
    by (simp add: express_info_def)
  have rd: "read_err ?wa (Path ?r1) = None" by code_simp
  have reg: "registry demo_manager = demo_client" by (simp add: demo_manager_def)
  from DownloadPackage_cache_hit [of demo_options ?E demo_manager "''express''" "''4.17.1''"
      ?w _ _ _ ?r1 ?wa "express_info ''4.17.1''"
      "snd (GetPackageVersion ?E (registry demo_manager) ''express'' ''4.17.1'' ?wa)"]
    uc join first gpv same rd
  have second: "DownloadPackage ?E demo_manager ''express'' ''4.17.1'' demo_options ?wa =
      (Inr ?r1, ?wb)"
    unfolding reg by blast
  have q1: "requests ?wa =
      [''http://registry/express'', ''http://registry/express/-/express-4.17.1.tgz'']"
    by code_simp
  have q2: "requests ?wb =
     [''http://registry/express'', ''http://registry/express/-/express-4.17.1.tgz'',
      ''http://registry/express'']"
    by code_simp
  from r q1 second q2 show ?thesis by simp
qed

section \<open>Downloading the dependencies\<close>

subsection \<open>Slots taken\<close>

lemma in_flight_acquire:
  "i < length ts \<Longrightarrow> ts ! i = Pending \<Longrightarrow> in_flight (ts[i := Running]) = Suc (in_flight ts)"
proof (induction ts arbitrary: i)
  case Nil
  then show ?case by simp
next
  case (Cons t ts)
  then show ?case by (cases i) (auto simp: in_flight_def)
qed

lemma in_flight_finish:
  "in_flight (ts[i := Done]) \<le> in_flight ts"
proof (induction ts arbitrary: i)
  case Nil
  then show ?case by (simp add: in_flight_def)
next
  case (Cons t ts)
  show ?case
  proof (cases i)
    case 0
    then show ?thesis by (simp add: in_flight_def)
  next
    case (Suc j)
    with Cons.IH [of j] show ?thesis by (simp add: in_flight_def)
  qed
qed

lemma dd_step_tasks:
  assumes "dd_step E dm opts deps ev s = Some s'"
  shows "(\<exists>i. ev = Acquire i \<and> i < length (tasks s) \<and> tasks s ! i = Pending \<and>
              int (in_flight (tasks s)) < Concurrency opts \<and>
              s' = s\<lparr>tasks := (tasks s)[i := Running]\<rparr>) \<or>
         (\<exists>i out w'. ev = Finish i \<and> i < length (tasks s) \<and> i < length deps \<and>
              tasks s ! i = Running \<and>
              DownloadPackage E dm (fst (deps ! i)) (snd (deps ! i)) opts (dworld s) = (out, w') \<and>
              tasks s' = (tasks s)[i := Done] \<and> dworld s' = w' \<and>
              (case out of
                 Inl err \<Rightarrow>
                   resultsChan s' = resultsChan s \<and>
                   errorsChan s' = errorsChan s @
                     [Errorf (''failed to download '' @ fst (deps ! i) @ ''@'' @ snd (deps ! i) @
                        '': %w'') [err]]
               | Inr r \<Rightarrow>
                   resultsChan s' = resultsChan s @ [r] \<and> errorsChan s' = errorsChan s))"
proof (cases ev)
  case (Acquire i)
  with assms show ?thesis by (auto split: if_splits)
next
  case (Finish i)
  obtain out w' where d: "DownloadPackage E dm (fst (deps ! i)) (snd (deps ! i)) opts (dworld s) = (out, w')"
    by (cases "DownloadPackage E dm (fst (deps ! i)) (snd (deps ! i)) opts (dworld s)")
  from assms Finish have g: "i < length (tasks s)" "i < length deps" "tasks s ! i = Running"
    by (auto split: if_splits)
  from assms Finish g d show ?thesis
    by (cases out) (auto simp: case_prod_beta)
qed

lemma dd_step_bound:
  assumes "dd_step E dm opts deps ev s = Some s'"
    and "int (in_flight (tasks s)) \<le> Concurrency opts"
  shows "int (in_flight (tasks s')) \<le> Concurrency opts"
proof -
  from dd_step_tasks [OF assms(1)] show ?thesis
  proof (elim disjE exE conjE)
    fix i
    assume "i < length (tasks s)" "tasks s ! i = Pending"
      "int (in_flight (tasks s)) < Concurrency opts" "s' = s\<lparr>tasks := (tasks s)[i := Running]\<rparr>"
    then show ?thesis by (simp add: in_flight_acquire)
  next
    fix i out w'
    assume "tasks s' = (tasks s)[i := Done]"
    with in_flight_finish [of "tasks s" i] assms(2) show ?thesis by simp
  qed
qed

lemma dd_run_bound:
  assumes "dd_run E dm opts deps sched s = Some s'"
    and "int (in_flight (tasks s)) \<le> Concurrency opts"
  shows "int (in_flight (tasks s')) \<le> Concurrency opts"
  using assms
proof (induction sched arbitrary: s)
  case Nil
  then show ?case by simp
next
  case (Cons ev evs)
  from Cons.prems(1) obtain s1 where s1: "dd_step E dm opts deps ev s = Some s1"
    and rest: "dd_run E dm opts deps evs s1 = Some s'"
    by (auto split: option.splits)
  from dd_step_bound [OF s1 Cons.prems(2)] Cons.IH [OF rest] show ?case by simp
qed

lemma in_flight_init: "in_flight (tasks (dd_init deps w)) = 0"
  by (simp add: dd_init_def in_flight_def)

lemma set_concurrency_positive: "0 < Concurrency (set_concurrency opts)"
  by (simp add: set_concurrency_def defaultConcurrency_def)

text \<open>
  C3, as amended. The capacity of the semaphore is \<open>opts.Concurrency\<close> when that is
  positive and \<^const>\<open>defaultConcurrency\<close> otherwise, and in every state that a schedule
  can reach, however many dependencies there are, at most that many goroutines hold a
  slot, that is, are inside their call of \<^verbatim>\<open>DownloadPackage\<close>.
\<close>

theorem semaphore_bound:
  "Concurrency (set_concurrency opts) =
     (if Concurrency opts \<le> 0 then defaultConcurrency else Concurrency opts) \<and>
   (dd_run E dm (set_concurrency opts) deps sched (dd_init deps w) = Some s \<longrightarrow>
      int (in_flight (tasks s)) \<le> Concurrency (set_concurrency opts))"
proof
  show "Concurrency (set_concurrency opts) =
     (if Concurrency opts \<le> 0 then defaultConcurrency else Concurrency opts)"
    by (simp add: set_concurrency_def)
next
  show "dd_run E dm (set_concurrency opts) deps sched (dd_init deps w) = Some s \<longrightarrow>
      int (in_flight (tasks s)) \<le> Concurrency (set_concurrency opts)"
  proof
    assume r: "dd_run E dm (set_concurrency opts) deps sched (dd_init deps w) = Some s"
    have "int (in_flight (tasks (dd_init deps w))) \<le> Concurrency (set_concurrency opts)"
      using set_concurrency_positive [of opts] by (simp add: in_flight_init)
    with r show "int (in_flight (tasks s)) \<le> Concurrency (set_concurrency opts)"
      by (rule dd_run_bound)
  qed
qed

text \<open>
  The claim as written fails: with \<open>opts.Concurrency = 1\<close> the capacity is 1, not
  \<open>max 1 defaultConcurrency = 3\<close>, and a second goroutine cannot take a slot while the
  first holds one.
\<close>

theorem semaphore_bound_counterexample:
  "Concurrency (set_concurrency (demo_options\<lparr>Concurrency := 1\<rparr>)) = 1 \<and>
   max (Concurrency (demo_options\<lparr>Concurrency := 1\<rparr>)) defaultConcurrency = 3 \<and>
   map_option tasks
     (dd_run (demo mock_docs) demo_manager (set_concurrency (demo_options\<lparr>Concurrency := 1\<rparr>))
        express_deps [Acquire 0] (dd_init express_deps (demo_world mock_server))) =
     Some [Running, Pending] \<and>
   map_option tasks
     (dd_run (demo mock_docs) demo_manager (set_concurrency (demo_options\<lparr>Concurrency := 1\<rparr>))
        express_deps [Acquire 0, Acquire 1] (dd_init express_deps (demo_world mock_server))) =
     None"
  by code_simp

theorem semaphore_bound_witness:
  "map_option tasks
     (dd_run (demo mock_docs) demo_manager (set_concurrency demo_options)
        express_deps [Acquire 0, Acquire 1] (dd_init express_deps (demo_world mock_server))) =
     Some [Running, Running] \<and>
   Concurrency (set_concurrency demo_options) = 2 \<and>
   Concurrency (set_concurrency (demo_options\<lparr>Concurrency := 0\<rparr>)) = 3"
proof -
  let ?run = "dd_run (demo mock_docs) demo_manager (set_concurrency demo_options)
        express_deps [Acquire 0, Acquire 1] (dd_init express_deps (demo_world mock_server))"
  have t: "map_option tasks ?run = Some [Running, Running]" by code_simp
  then obtain s where s: "?run = Some s" and ts: "tasks s = [Running, Running]" by auto
  from semaphore_bound [of demo_options "demo mock_docs" demo_manager express_deps
      "[Acquire 0, Acquire 1]" "demo_world mock_server" s] s
  have "int (in_flight (tasks s)) \<le> Concurrency (set_concurrency demo_options)" by blast
  moreover have "Concurrency (set_concurrency demo_options) = 2" by code_simp
  moreover have "Concurrency (set_concurrency (demo_options\<lparr>Concurrency := 0\<rparr>)) = 3"
    by code_simp
  ultimately show ?thesis using t by simp
qed

subsection \<open>Results carry no error\<close>

lemma dd_step_results_Error:
  assumes "dd_step E dm opts deps ev s = Some s'"
    and "\<forall>r \<in> set (resultsChan s). Error r = None"
  shows "\<forall>r \<in> set (resultsChan s'). Error r = None"
proof -
  from dd_step_tasks [OF assms(1)] show ?thesis
  proof (elim disjE exE conjE)
    fix i
    assume "s' = s\<lparr>tasks := (tasks s)[i := Running]\<rparr>"
    with assms(2) show ?thesis by simp
  next
    fix i out w'
    assume d: "DownloadPackage E dm (fst (deps ! i)) (snd (deps ! i)) opts (dworld s) = (out, w')"
      and c: "case out of
                 Inl err \<Rightarrow>
                   resultsChan s' = resultsChan s \<and>
                   errorsChan s' = errorsChan s @
                     [Errorf (''failed to download '' @ fst (deps ! i) @ ''@'' @ snd (deps ! i) @
                        '': %w'') [err]]
               | Inr r \<Rightarrow>
                   resultsChan s' = resultsChan s @ [r] \<and> errorsChan s' = errorsChan s"
    show ?thesis
    proof (cases out)
      case (Inl err)
      with c assms(2) show ?thesis by simp
    next
      case (Inr r)
      with d have "Error r = None" using DownloadPackage_Error_None by blast
      with c Inr assms(2) show ?thesis by simp
    qed
  qed
qed

lemma dd_run_results_Error:
  assumes "dd_run E dm opts deps sched s = Some s'"
    and "\<forall>r \<in> set (resultsChan s). Error r = None"
  shows "\<forall>r \<in> set (resultsChan s'). Error r = None"
  using assms
proof (induction sched arbitrary: s)
  case Nil
  then show ?case by simp
next
  case (Cons ev evs)
  from Cons.prems(1) obtain s1 where s1: "dd_step E dm opts deps ev s = Some s1"
    and rest: "dd_run E dm opts deps evs s1 = Some s'"
    by (auto split: option.splits)
  from dd_step_results_Error [OF s1 Cons.prems(2)] Cons.IH [OF rest] show ?case by simp
qed

lemma DownloadDependencies_results_Error:
  assumes "DownloadDependencies E dm name version opts sched w = Some (results, err, w')"
  shows "\<forall>r \<in> set results. Error r = None"
proof -
  obtain g w1 where g: "GetPackageVersion E (registry dm) name version w = (g, w1)"
    by (cases "GetPackageVersion E (registry dm) name version w")
  show ?thesis
  proof (cases g)
    case (Inl e)
    with assms g show ?thesis by (simp add: DownloadDependencies_def)
  next
    case (Inr vi)
    show ?thesis
    proof (cases "Dependencies vi = []")
      case True
      with assms g Inr show ?thesis by (simp add: DownloadDependencies_def)
    next
      case False
      with assms g Inr obtain s where
        run: "dd_run E dm (set_concurrency opts) (Dependencies vi) sched
                (dd_init (Dependencies vi) w1) = Some s"
        and res: "results = resultsChan s"
        by (auto simp: DownloadDependencies_def Let_def split: option.splits if_splits)
      have "\<forall>r \<in> set (resultsChan (dd_init (Dependencies vi) w1)). Error r = None"
        by (simp add: dd_init_def)
      from dd_run_results_Error [OF run this] res show ?thesis by simp
    qed
  qed
qed

text \<open>
  C10. A result returned by \<^verbatim>\<open>DownloadPackage\<close>, and every result in the list
  returned by \<^verbatim>\<open>DownloadDependencies\<close>, has \<^verbatim>\<open>Error = nil\<close>. A failed
  attempt yields no result: \<^const>\<open>DownloadPackage\<close> returns either an error or a result,
  and a goroutine of \<^const>\<open>DownloadDependencies\<close> sends a failure to the error channel
  only.
\<close>

theorem DownloadResult_Error_nil:
  "(DownloadPackage E dm name version opts w = (Inr r, w') \<longrightarrow> Error r = None) \<and>
   (DownloadDependencies E dm name version opts sched w = Some (results, err, w'') \<longrightarrow>
      (\<forall>r \<in> set results. Error r = None))"
  using DownloadPackage_Error_None [of E dm name version opts w r w']
    DownloadDependencies_results_Error [of E dm name version opts sched w results err w'']
  by blast

theorem DownloadResult_Error_nil_witness:
  "map_option (\<lambda>(results, err, w'). map Error results)
     (DownloadDependencies (demo mock_docs) demo_manager ''express'' ''4.17.1''
        demo_options express_schedule (demo_world mock_server)) = Some [None] \<and>
   map_option (\<lambda>(results, err, w'). map PackageName results)
     (DownloadDependencies (demo mock_docs) demo_manager ''express'' ''4.17.1''
        demo_options express_schedule (demo_world mock_server)) = Some [''body-parser''] \<and>
   map_sum id Error (fst (DownloadPackage (demo mock_docs) demo_manager ''express'' ''4.17.1''
       demo_options (demo_world mock_server))) = Inr None"
proof -
  let ?E = "demo mock_docs"
  let ?dd = "DownloadDependencies ?E demo_manager ''express'' ''4.17.1''
       demo_options express_schedule (demo_world mock_server)"
  let ?dp = "DownloadPackage ?E demo_manager ''express'' ''4.17.1'' demo_options
       (demo_world mock_server)"
  have names: "map_option (\<lambda>(results, err, w'). map PackageName results) ?dd =
      Some [''body-parser'']"
    by code_simp
  then obtain results err w'' where dd: "?dd = Some (results, err, w'')"
    and nm: "map PackageName results = [''body-parser'']"
    by (cases ?dd) auto
  have "map_sum id (\<lambda>x. ()) (fst ?dp) = Inr ()" by code_simp
  then obtain r w' where dp: "?dp = (Inr r, w')"
    by (cases ?dp) (auto simp: map_sum_def split: sum.splits)
  from DownloadResult_Error_nil [of ?E demo_manager "''express''" "''4.17.1''" demo_options
      "demo_world mock_server" r w' express_schedule results err w''] dd dp
  have e: "Error r = None" "\<forall>r \<in> set results. Error r = None" by blast+
  from nm have "length results = 1" by (auto dest: arg_cong [where f = length])
  with e(2) have "map Error results = [None]" by (cases results) auto
  with dd dp e(1) names show ?thesis by simp
qed

subsection \<open>What is collected\<close>

lemma results_of_snoc:
  "results_of (outs @ [(i, Inr r)]) = results_of outs @ [r]"
  "results_of (outs @ [(i, Inl e)]) = results_of outs"
  by (simp_all add: results_of_def)

lemma errors_of_snoc:
  "errors_of deps (outs @ [(i, Inr r)]) = errors_of deps outs"
  "errors_of deps (outs @ [(i, Inl e)]) = errors_of deps outs @
     [Errorf (''failed to download '' @ fst (deps ! i) @ ''@'' @ snd (deps ! i) @ '': %w'') [e]]"
  by (simp_all add: errors_of_def)

lemma dd_step_length:
  assumes "dd_step E dm opts deps ev s = Some s'"
  shows "length (tasks s') = length (tasks s)"
  using dd_step_tasks [OF assms] by auto

lemma dd_run_length:
  assumes "dd_run E dm opts deps sched s = Some s'"
  shows "length (tasks s') = length (tasks s)"
  using assms
proof (induction sched arbitrary: s)
  case Nil
  then show ?case by simp
next
  case (Cons ev evs)
  from Cons.prems obtain s1 where s1: "dd_step E dm opts deps ev s = Some s1"
    and rest: "dd_run E dm opts deps evs s1 = Some s'"
    by (auto split: option.splits)
  from dd_step_length [OF s1] Cons.IH [OF rest] show ?case by simp
qed

lemma dd_step_collected:
  assumes step: "dd_step E dm opts deps ev s = Some s'"
    and inv: "collected E dm opts deps s outs"
  shows "\<exists>outs'. collected E dm opts deps s' outs'"
proof -
  from dd_step_tasks [OF step] show ?thesis
  proof (elim disjE exE conjE)
    fix i
    assume i: "i < length (tasks s)" "tasks s ! i = Pending"
      and s': "s' = s\<lparr>tasks := (tasks s)[i := Running]\<rparr>"
    have "{j. j < length (tasks s') \<and> tasks s' ! j = Done} =
        {j. j < length (tasks s) \<and> tasks s ! j = Done}"
      using i s' by (auto simp: nth_list_update)
    with inv s' have "collected E dm opts deps s' outs"
      by (simp add: collected_def)
    then show ?thesis ..
  next
    fix i out w'
    assume i: "i < length (tasks s)" "i < length deps" "tasks s ! i = Running"
      and d: "DownloadPackage E dm (fst (deps ! i)) (snd (deps ! i)) opts (dworld s) = (out, w')"
      and ts: "tasks s' = (tasks s)[i := Done]"
      and c: "case out of
                 Inl err \<Rightarrow>
                   resultsChan s' = resultsChan s \<and>
                   errorsChan s' = errorsChan s @
                     [Errorf (''failed to download '' @ fst (deps ! i) @ ''@'' @ snd (deps ! i) @
                        '': %w'') [err]]
               | Inr r \<Rightarrow>
                   resultsChan s' = resultsChan s @ [r] \<and> errorsChan s' = errorsChan s"
    let ?outs = "outs @ [(i, out)]"
    from inv i have fresh: "i \<notin> set (map fst outs)"
      by (simp add: collected_def)
    with inv have dist: "distinct (map fst ?outs)" by (simp add: collected_def)
    have "{j. j < length (tasks s') \<and> tasks s' ! j = Done} =
        insert i {j. j < length (tasks s) \<and> tasks s ! j = Done}"
      using i ts by (auto simp: nth_list_update)
    with inv have dn: "set (map fst ?outs) = {j. j < length (tasks s') \<and> tasks s' ! j = Done}"
      by (simp add: collected_def)
    from d have "fst (DownloadPackage E dm (fst (deps ! i)) (snd (deps ! i)) opts (dworld s)) = out"
      by simp
    with inv i have src: "\<forall>(j, o') \<in> set ?outs. j < length deps \<and>
        (\<exists>wk. fst (DownloadPackage E dm (fst (deps ! j)) (snd (deps ! j)) opts wk) = o')"
      by (auto simp: collected_def)
    from inv c have chans: "resultsChan s' = results_of ?outs \<and> errorsChan s' = errors_of deps ?outs"
      by (cases out) (simp_all add: collected_def results_of_snoc errors_of_snoc)
    from dist dn src chans have "collected E dm opts deps s' ?outs"
      unfolding collected_def by blast
    then show ?thesis ..
  qed
qed

lemma dd_run_collected:
  assumes "dd_run E dm opts deps sched s = Some s'"
    and "collected E dm opts deps s outs"
  shows "\<exists>outs'. collected E dm opts deps s' outs'"
  using assms
proof (induction sched arbitrary: s outs)
  case Nil
  then show ?case by auto
next
  case (Cons ev evs)
  from Cons.prems(1) obtain s1 where s1: "dd_step E dm opts deps ev s = Some s1"
    and rest: "dd_run E dm opts deps evs s1 = Some s'"
    by (auto split: option.splits)
  from dd_step_collected [OF s1 Cons.prems(2)] obtain outs1 where
    "collected E dm opts deps s1 outs1" ..
  from Cons.IH [OF rest this] show ?case .
qed

lemma collected_init: "collected E dm opts deps (dd_init deps w) []"
  by (simp add: collected_def dd_init_def results_of_def errors_of_def)

lemma dd_step_Finish_Some:
  assumes "i < length (tasks s)" "i < length deps" "tasks s ! i = Running"
  shows "\<exists>s'. dd_step E dm opts deps (Finish i) s = Some s' \<and> tasks s' = (tasks s)[i := Done]"
proof -
  obtain out w' where d: "DownloadPackage E dm (fst (deps ! i)) (snd (deps ! i)) opts (dworld s) = (out, w')"
    by (cases "DownloadPackage E dm (fst (deps ! i)) (snd (deps ! i)) opts (dworld s)")
  with assms show ?thesis
    by (cases out) (auto simp: case_prod_beta)
qed

lemma unfinished_finish:
  "i < length ts \<Longrightarrow> ts ! i \<noteq> Done \<Longrightarrow> unfinished (ts[i := Done]) < unfinished ts"
proof (induction ts arbitrary: i)
  case Nil
  then show ?case by simp
next
  case (Cons t ts)
  show ?case
  proof (cases i)
    case 0
    with Cons.prems show ?thesis by (simp add: unfinished_def)
  next
    case (Suc j)
    with Cons.prems Cons.IH [of j] show ?thesis by (simp add: unfinished_def)
  qed
qed

lemma unfinished_zero: "unfinished ts = 0 \<Longrightarrow> list_all (\<lambda>t. t = Done) ts"
  by (induction ts) (auto simp: unfinished_def split: if_splits)

lemma in_flight_zero: "\<forall>i < length ts. ts ! i \<noteq> Running \<Longrightarrow> in_flight ts = 0"
  by (auto simp: in_flight_def filter_empty_conv in_set_conv_nth)

lemma dd_run_append:
  "dd_run E dm opts deps (a @ b) s =
     (case dd_run E dm opts deps a s of None \<Rightarrow> None | Some s' \<Rightarrow> dd_run E dm opts deps b s')"
  by (induction a arbitrary: s) (auto split: option.splits)

lemma dd_run_completes:
  assumes "length (tasks s) = length deps" and "0 < Concurrency opts"
  shows "\<exists>more s'. dd_run E dm opts deps more s = Some s' \<and> list_all (\<lambda>t. t = Done) (tasks s')"
  using assms(1)
proof (induction "unfinished (tasks s)" arbitrary: s rule: less_induct)
  case less
  show ?case
  proof (cases "unfinished (tasks s) = 0")
    case True
    then have "list_all (\<lambda>t. t = Done) (tasks s)" by (rule unfinished_zero)
    then have "dd_run E dm opts deps [] s = Some s \<and> list_all (\<lambda>t. t = Done) (tasks s)" by simp
    then show ?thesis by blast
  next
    case False
    show ?thesis
    proof (cases "\<exists>i < length (tasks s). tasks s ! i = Running")
      case True
      then obtain i where i: "i < length (tasks s)" "tasks s ! i = Running" by blast
      with less.prems have "i < length deps" by simp
      from dd_step_Finish_Some [OF i(1) this i(2)]
      obtain s1 where f: "dd_step E dm opts deps (Finish i) s = Some s1"
        and t1: "tasks s1 = (tasks s)[i := Done]" by blast
      from i t1 have "unfinished (tasks s1) < unfinished (tasks s)"
        by (simp add: unfinished_finish)
      moreover from t1 less.prems have "length (tasks s1) = length deps" by simp
      ultimately obtain more s' where "dd_run E dm opts deps more s1 = Some s'"
        and "list_all (\<lambda>t. t = Done) (tasks s')"
        using less.hyps by blast
      with f have "dd_run E dm opts deps (Finish i # more) s = Some s' \<and>
          list_all (\<lambda>t. t = Done) (tasks s')" by simp
      then show ?thesis by blast
    next
      case norun: False
      then have idle: "in_flight (tasks s) = 0" by (intro in_flight_zero) auto
      from False obtain i where i: "i < length (tasks s)" "tasks s ! i \<noteq> Done"
        by (auto simp: unfinished_def filter_empty_conv in_set_conv_nth)
      with norun have p: "tasks s ! i = Pending" by (cases "tasks s ! i") auto
      let ?s0 = "s\<lparr>tasks := (tasks s)[i := Running]\<rparr>"
      from i p idle assms(2) have a: "dd_step E dm opts deps (Acquire i) s = Some ?s0" by simp
      from i less.prems have "i < length (tasks ?s0)" "i < length deps" "tasks ?s0 ! i = Running"
        by simp_all
      from dd_step_Finish_Some [OF this]
      obtain s1 where f: "dd_step E dm opts deps (Finish i) ?s0 = Some s1"
        and t1: "tasks s1 = (tasks ?s0)[i := Done]" by blast
      from t1 have t1': "tasks s1 = (tasks s)[i := Done]" by simp
      with i have "unfinished (tasks s1) < unfinished (tasks s)"
        by (simp add: unfinished_finish)
      moreover from t1' less.prems have "length (tasks s1) = length deps" by simp
      ultimately obtain more s' where "dd_run E dm opts deps more s1 = Some s'"
        and "list_all (\<lambda>t. t = Done) (tasks s')"
        using less.hyps by blast
      with a f have "dd_run E dm opts deps (Acquire i # Finish i # more) s = Some s' \<and>
          list_all (\<lambda>t. t = Done) (tasks s')" by simp
      then show ?thesis by blast
    qed
  qed
qed

lemma results_of_member: "(j, Inr r) \<in> set outs \<Longrightarrow> r \<in> set (results_of outs)"
  by (induction outs) (auto simp: results_of_def)

lemma errors_of_nonempty: "(i, Inl e) \<in> set outs \<Longrightarrow> errors_of deps outs \<noteq> []"
  by (induction outs) (auto simp: errors_of_def)

lemma length_results_errors:
  "length (results_of outs) + length (errors_of deps outs) = length outs"
proof (induction outs)
  case Nil
  show ?case by (simp add: results_of_def errors_of_def)
next
  case (Cons x outs)
  obtain i out where x: "x = (i, out)" by (cases x)
  with Cons show ?case
    by (cases out) (simp_all add: results_of_def errors_of_def)
qed

lemma DownloadDependencies_completes:
  assumes gpv: "GetPackageVersion E (registry dm) name version w = (Inr vi, w1)"
    and run: "dd_run E dm (set_concurrency opts) (Dependencies vi) sched
                (dd_init (Dependencies vi) w1) = Some s"
  shows "\<exists>more results err w'.
           DownloadDependencies E dm name version opts (sched @ more) w = Some (results, err, w')"
proof -
  let ?deps = "Dependencies vi"
  let ?opts = "set_concurrency opts"
  from dd_run_length [OF run] have "length (tasks s) = length ?deps" by (simp add: dd_init_def)
  from dd_run_completes [OF this set_concurrency_positive [of opts]]
  obtain more s' where more: "dd_run E dm ?opts ?deps more s = Some s'"
    and fin: "list_all (\<lambda>t. t = Done) (tasks s')" by blast
  from run more have "dd_run E dm ?opts ?deps (sched @ more) (dd_init ?deps w1) = Some s'"
    by (simp add: dd_run_append)
  with gpv fin have "\<exists>results err w'.
      DownloadDependencies E dm name version opts (sched @ more) w = Some (results, err, w')"
    by (simp add: DownloadDependencies_def Let_def)
  then show ?thesis by blast
qed

lemma DownloadDependencies_outcomes:
  assumes gpv: "GetPackageVersion E (registry dm) name version w = (Inr vi, w1)"
    and deps: "Dependencies vi \<noteq> []"
    and ret: "DownloadDependencies E dm name version opts sched w = Some (results, err, w')"
  shows "\<exists>outs. distinct (map fst outs) \<and>
           set (map fst outs) = {..<length (Dependencies vi)} \<and>
           (\<forall>(i, out) \<in> set outs.
              \<exists>wk. fst (DownloadPackage E dm (fst (Dependencies vi ! i))
                           (snd (Dependencies vi ! i)) (set_concurrency opts) wk) = out) \<and>
           results = results_of outs \<and>
           err = (if errors_of (Dependencies vi) outs = [] then None
                  else Some (Errorf ''some dependencies failed to download: %v''
                               (errors_of (Dependencies vi) outs)))"
proof -
  let ?deps = "Dependencies vi"
  let ?opts = "set_concurrency opts"
  from gpv deps ret obtain s where
    run: "dd_run E dm ?opts ?deps sched (dd_init ?deps w1) = Some s"
    and alldone: "list_all (\<lambda>t. t = Done) (tasks s)"
    and res: "results = resultsChan s"
    and er: "err = (if length (errorsChan s) > 0
                    then Some (Errorf ''some dependencies failed to download: %v'' (errorsChan s))
                    else None)"
    by (auto simp: DownloadDependencies_def Let_def split: option.splits if_splits)
  from dd_run_collected [OF run collected_init] obtain outs where
    c: "collected E dm ?opts ?deps s outs" ..
  from dd_run_length [OF run] have len: "length (tasks s) = length ?deps"
    by (simp add: dd_init_def)
  from alldone have "\<forall>i < length (tasks s). tasks s ! i = Done"
    by (simp add: list_all_length)
  with len have "{i. i < length (tasks s) \<and> tasks s ! i = Done} = {..<length ?deps}"
    by auto
  with c have idx: "set (map fst outs) = {..<length ?deps}" by (simp add: collected_def)
  from c have dist: "distinct (map fst outs)" by (simp add: collected_def)
  from c have src: "\<forall>(i, out) \<in> set outs.
      \<exists>wk. fst (DownloadPackage E dm (fst (?deps ! i)) (snd (?deps ! i)) ?opts wk) = out"
    by (auto simp: collected_def)
  from c res have r: "results = results_of outs" by (simp add: collected_def)
  from c er have e: "err = (if errors_of ?deps outs = [] then None
      else Some (Errorf ''some dependencies failed to download: %v'' (errors_of ?deps outs)))"
    by (simp add: collected_def)
  from dist idx src r e show ?thesis by blast
qed

text \<open>
  C5. For a package whose version has dependencies: whatever the goroutines have done so
  far, the schedule can go on so that the call returns (no goroutine is ever stuck); and
  whenever the call returns, under any schedule, there is an outcome list with exactly
  one outcome for every dependency (so every goroutine has run to its end, none was
  cancelled), each outcome being what \<^verbatim>\<open>DownloadPackage\<close> gave for that dependency;
  the results returned are all the successful outcomes, and the error returned is
  \<^verbatim>\<open>nil\<close> when no outcome is a failure and otherwise one error that lists every
  failure. In particular, when one outcome is a failure and another a success, the call
  returns a non-empty result list together with a non-nil error.
\<close>

theorem DownloadDependencies_partial_failure:
  assumes gpv: "GetPackageVersion E (registry dm) name version w = (Inr vi, w1)"
    and deps: "Dependencies vi \<noteq> []"
  shows "(\<forall>sched s.
            dd_run E dm (set_concurrency opts) (Dependencies vi) sched
              (dd_init (Dependencies vi) w1) = Some s \<longrightarrow>
            (\<exists>more results err w'.
               DownloadDependencies E dm name version opts (sched @ more) w =
                 Some (results, err, w'))) \<and>
         (\<forall>sched results err w'.
            DownloadDependencies E dm name version opts sched w = Some (results, err, w') \<longrightarrow>
            (\<exists>outs.
               distinct (map fst outs) \<and>
               set (map fst outs) = {..<length (Dependencies vi)} \<and>
               (\<forall>(i, out) \<in> set outs.
                  \<exists>wk. fst (DownloadPackage E dm (fst (Dependencies vi ! i))
                               (snd (Dependencies vi ! i)) (set_concurrency opts) wk) = out) \<and>
               results = results_of outs \<and>
               err = (if errors_of (Dependencies vi) outs = [] then None
                      else Some (Errorf ''some dependencies failed to download: %v''
                                   (errors_of (Dependencies vi) outs))) \<and>
               length results + length (errors_of (Dependencies vi) outs) =
                 length (Dependencies vi) \<and>
               ((\<exists>i e. (i, Inl e) \<in> set outs) \<and> (\<exists>j r. (j, Inr r) \<in> set outs) \<longrightarrow>
                  results \<noteq> [] \<and> err \<noteq> None)))"
proof (intro conjI allI impI)
  fix sched s
  assume "dd_run E dm (set_concurrency opts) (Dependencies vi) sched
      (dd_init (Dependencies vi) w1) = Some s"
  with gpv show "\<exists>more results err w'.
      DownloadDependencies E dm name version opts (sched @ more) w = Some (results, err, w')"
    by (rule DownloadDependencies_completes)
next
  fix sched results err w'
  assume ret: "DownloadDependencies E dm name version opts sched w = Some (results, err, w')"
  from DownloadDependencies_outcomes [OF gpv deps ret] obtain outs where
    dist: "distinct (map fst outs)"
    and idx: "set (map fst outs) = {..<length (Dependencies vi)}"
    and src: "\<forall>(i, out) \<in> set outs.
        \<exists>wk. fst (DownloadPackage E dm (fst (Dependencies vi ! i))
                     (snd (Dependencies vi ! i)) (set_concurrency opts) wk) = out"
    and r: "results = results_of outs"
    and e: "err = (if errors_of (Dependencies vi) outs = [] then None
                   else Some (Errorf ''some dependencies failed to download: %v''
                                (errors_of (Dependencies vi) outs)))"
    by blast
  from dist have "length outs = card (set (map fst outs))"
    using distinct_card [of "map fst outs"] by simp
  with idx have "length outs = length (Dependencies vi)" by simp
  with r length_results_errors [of outs "Dependencies vi"]
  have len: "length results + length (errors_of (Dependencies vi) outs) = length (Dependencies vi)"
    by simp
  have mixed: "(\<exists>i e. (i, Inl e) \<in> set outs) \<and> (\<exists>j r. (j, Inr r) \<in> set outs) \<longrightarrow>
      results \<noteq> [] \<and> err \<noteq> None"
  proof
    assume "(\<exists>i e. (i, Inl e) \<in> set outs) \<and> (\<exists>j r. (j, Inr r) \<in> set outs)"
    then obtain i e' j r' where "(i, Inl e') \<in> set outs" "(j, Inr r') \<in> set outs" by blast
    then have "errors_of (Dependencies vi) outs \<noteq> []" "r' \<in> set (results_of outs)"
      by (simp_all add: errors_of_nonempty results_of_member)
    with r e show "results \<noteq> [] \<and> err \<noteq> None" by auto
  qed
  from dist idx src r e len mixed
  show "\<exists>outs.
       distinct (map fst outs) \<and>
       set (map fst outs) = {..<length (Dependencies vi)} \<and>
       (\<forall>(i, out) \<in> set outs.
          \<exists>wk. fst (DownloadPackage E dm (fst (Dependencies vi ! i))
                       (snd (Dependencies vi ! i)) (set_concurrency opts) wk) = out) \<and>
       results = results_of outs \<and>
       err = (if errors_of (Dependencies vi) outs = [] then None
              else Some (Errorf ''some dependencies failed to download: %v''
                           (errors_of (Dependencies vi) outs))) \<and>
       length results + length (errors_of (Dependencies vi) outs) =
         length (Dependencies vi) \<and>
       ((\<exists>i e. (i, Inl e) \<in> set outs) \<and> (\<exists>j r. (j, Inr r) \<in> set outs) \<longrightarrow>
          results \<noteq> [] \<and> err \<noteq> None)"
    by blast
qed

theorem DownloadDependencies_partial_failure_witness:
  "map_option (\<lambda>(results, err, w'). (results, err))
     (DownloadDependencies (demo mock_docs) demo_manager ''express'' ''4.17.1'' demo_options
        express_schedule (demo_world mock_server)) =
   Some ([\<lparr>PackageName = ''body-parser'', ResultVersion = ''1.19.0'',
            Path = ''cache/body-parser/1.19.0/package.tgz'',
            ResultShasum = ''sha1:body-parser-1.19.0-content'', Error = None\<rparr>],
         Some (Errorf ''some dependencies failed to download: %v''
                 [Errorf ''failed to download cookie@0.4.0: %w''
                    [Errorf ''failed to get package metadata: %w''
                       [ZapError ''http_error''
                          ''failed to fetch metadata for package cookie: HTTP 404: '' None]]]))"
proof -
  let ?E = "demo mock_docs"
  let ?w = "demo_world mock_server"
  let ?w1 = "snd (GetPackageVersion ?E (registry demo_manager) ''express'' ''4.17.1'' ?w)"
  have "fst (GetPackageVersion ?E (registry demo_manager) ''express'' ''4.17.1'' ?w) =
      Inr (express_info ''4.17.1'')"
    by code_simp
  then have gpv: "GetPackageVersion ?E (registry demo_manager) ''express'' ''4.17.1'' ?w =
      (Inr (express_info ''4.17.1''), ?w1)"
    by (simp add: prod_eq_iff)
  have deps: "Dependencies (express_info ''4.17.1'') \<noteq> []"
    by (simp add: express_info_def)
  note t = DownloadDependencies_partial_failure [OF gpv deps, of demo_options]
  have "map_option (\<lambda>(results, err, w'). (results, err))
     (DownloadDependencies ?E demo_manager ''express'' ''4.17.1'' demo_options
        express_schedule ?w) =
   Some ([\<lparr>PackageName = ''body-parser'', ResultVersion = ''1.19.0'',
            Path = ''cache/body-parser/1.19.0/package.tgz'',
            ResultShasum = ''sha1:body-parser-1.19.0-content'', Error = None\<rparr>],
         Some (Errorf ''some dependencies failed to download: %v''
                 [Errorf ''failed to download cookie@0.4.0: %w''
                    [Errorf ''failed to get package metadata: %w''
                       [ZapError ''http_error''
                          ''failed to fetch metadata for package cookie: HTTP 404: '' None]]]))"
    by code_simp
  with t show ?thesis by simp
qed

end
